theory Spec2Isabelle
  imports Complex_Main "HOL-Library.Word" "HOL-Library.AList"
begin

section \<open>Values, errors and the platform\<close>

type_synonym byte = "8 word"
type_synonym bytes = "byte list"
type_synonym path = string

text \<open>Every exception the modelled code can raise is a value; a function that can raise
  returns \<open>error + 'a\<close> with \<open>Inl\<close> for the exception.\<close>

datatype error = ValueError | BinasciiError | StructError | ZlibError | JSONDecodeError
  | KeyError | TypeError | AttributeError | FileNotFoundError | OSError | ConnectionError

text \<open>The elements a delta list can hold at run time: what \<open>pyrsync2\<close> produces (integers
  and byte chunks) and what \<open>json.loads\<close> can put into a list (integers, booleans, strings,
  floats, null, nested lists).\<close>

datatype pyval = PInt int | PBool bool | PBytes bytes | PStr string | PFloat real | PNone
  | PList "pyval list"

text \<open>\<open>isinstance(item, int)\<close>: Python's \<open>bool\<close> is a subclass of \<open>int\<close>.\<close>

fun isinstance_int :: "pyval \<Rightarrow> bool" where
  "isinstance_int (PInt i) = True"
| "isinstance_int (PBool b) = True"
| "isinstance_int v = False"

fun isinstance_bytes :: "pyval \<Rightarrow> bool" where
  "isinstance_bytes (PBytes b) = True"
| "isinstance_bytes v = False"

fun isinstance_str :: "pyval \<Rightarrow> bool" where
  "isinstance_str (PStr s) = True"
| "isinstance_str v = False"

text \<open>A block signature: the list of (weak checksum, strong checksum) pairs.\<close>

type_synonym signature = "(int \<times> bytes) list"

record regular_file =
  content :: bytes
  mtime :: real

text \<open>The disk holds regular files only, keyed by canonical path, in directory order.
  Directories exist implicitly, so \<open>os.makedirs(..., exist_ok=True)\<close> has no effect here.\<close>

type_synonym disk = "(path \<times> regular_file) list"

text \<open>What the code takes from outside the repository: the path functions of \<open>os.path\<close>,
  the configured directories, the width of C's \<open>unsigned long\<close> (the native \<open>L\<close> of
  \<open>struct\<close>), \<open>zlib\<close>, \<open>json\<close> (with the UTF-8 step), the \<open>pyrsync2\<close> primitives, the name
  \<open>tempfile\<close> picks, the directory listing of \<open>os.walk\<close>, and the two failures of the
  operating system that the code has handlers for. \<open>patchstream\<close> returns what it wrote to
  the output stream and the exception that interrupted it, if any.\<close>

record 'm env =
  abspath :: "path \<Rightarrow> path"
  relpath :: "path \<Rightarrow> path \<Rightarrow> path"
  monitored_directory :: path
  signatures_dir :: path
  sizeof_long :: nat
  zlib_compress :: "bytes \<Rightarrow> bytes"
  zlib_decompress :: "bytes \<Rightarrow> error + bytes"
  json_dumps :: "'m \<Rightarrow> error + bytes"
  json_loads :: "bytes \<Rightarrow> error + 'm"
  blockchecksums :: "bytes \<Rightarrow> signature"
  rsyncdelta :: "bytes \<Rightarrow> signature \<Rightarrow> pyval list"
  patchstream :: "bytes \<Rightarrow> pyval list \<Rightarrow> bytes \<times> error option"
  mktemp :: "disk \<Rightarrow> path"
  os_walk :: "disk \<Rightarrow> path \<Rightarrow> path list"
  replace_fails :: "path \<Rightarrow> path \<Rightarrow> bool"
  connect_fails :: "string \<Rightarrow> nat \<Rightarrow> bool"

section \<open>Integers as bytes (\<open>struct\<close>)\<close>

fun le_bytes :: "nat \<Rightarrow> nat \<Rightarrow> bytes" where
  "le_bytes 0 n = []"
| "le_bytes (Suc k) n = of_nat (n mod 256) # le_bytes k (n div 256)"

fun le_nat :: "bytes \<Rightarrow> nat" where
  "le_nat [] = 0"
| "le_nat (b # bs) = unat b + 256 * le_nat bs"

definition be_bytes :: "nat \<Rightarrow> nat \<Rightarrow> bytes" where
  "be_bytes k n = rev (le_bytes k n)"

definition be_nat :: "bytes \<Rightarrow> nat" where
  "be_nat bs = le_nat (rev bs)"

text \<open>\<open>struct.pack('>Q', n)\<close> and \<open>struct.unpack('>Q', b)[0]\<close>: eight bytes, big-endian.\<close>

definition pack_Q :: "nat \<Rightarrow> error + bytes" where
  "pack_Q n = (if n < 2 ^ 64 then Inr (be_bytes 8 n) else Inl StructError)"

definition unpack_Q :: "bytes \<Rightarrow> error + nat" where
  "unpack_Q b = (if length b = 8 then Inr (be_nat b) else Inl StructError)"

text \<open>\<open>struct.pack("L16s", weak, strong)\<close> in native mode on a little-endian host: the
  unsigned long at offset 0, then sixteen bytes, padded with zero bytes or cut.\<close>

definition calcsize :: "'m env \<Rightarrow> nat" where
  "calcsize env = sizeof_long env + 16"

definition pack_L16s :: "'m env \<Rightarrow> int \<Rightarrow> bytes \<Rightarrow> error + bytes" where
  "pack_L16s env weak_checksum strong_checksum =
     (if 0 \<le> weak_checksum \<and> weak_checksum < 2 ^ (8 * sizeof_long env)
      then Inr (le_bytes (sizeof_long env) (nat weak_checksum)
                @ take 16 (strong_checksum @ replicate 16 0))
      else Inl StructError)"

definition unpack_L16s :: "'m env \<Rightarrow> bytes \<Rightarrow> error + (int \<times> bytes)" where
  "unpack_L16s env b =
     (if length b = calcsize env
      then Inr (int (le_nat (take (sizeof_long env) b)), drop (sizeof_long env) b)
      else Inl StructError)"

section \<open>Base64 (\<open>base64.b64encode\<close>, \<open>base64.b64decode\<close>)\<close>

definition b64_alphabet :: string where
  "b64_alphabet = ''ABCDEFGHIJKLMNOPQRSTUVWXYZabcdefghijklmnopqrstuvwxyz0123456789+/''"

definition b64_char :: "nat \<Rightarrow> char" where
  "b64_char v = b64_alphabet ! (v mod 64)"

fun index_of :: "'a \<Rightarrow> 'a list \<Rightarrow> nat option" where
  "index_of x [] = None"
| "index_of x (y # ys) = (if x = y then Some 0 else map_option Suc (index_of x ys))"

definition b64_index :: "char \<Rightarrow> nat option" where
  "b64_index c = index_of c b64_alphabet"

fun b64_groups :: "nat list \<Rightarrow> string" where
  "b64_groups (a # b # c # rest) =
     [b64_char (a div 4), b64_char ((a mod 4) * 16 + b div 16),
      b64_char ((b mod 16) * 4 + c div 64), b64_char (c mod 64)] @ b64_groups rest"
| "b64_groups [a, b] =
     [b64_char (a div 4), b64_char ((a mod 4) * 16 + b div 16),
      b64_char ((b mod 16) * 4), CHR ''='']"
| "b64_groups [a] =
     [b64_char (a div 4), b64_char ((a mod 4) * 16), CHR ''='', CHR ''='']"
| "b64_groups [] = []"

definition b64encode :: "bytes \<Rightarrow> string" where
  "b64encode bs = b64_groups (map unat bs)"

text \<open>The decoder in its default, non-validating mode: characters outside the alphabet are
  skipped, a complete pad sequence ends the input, and input that stops inside a group of
  four is an error.\<close>

fun a2b_base64 :: "nat \<Rightarrow> nat \<Rightarrow> nat \<Rightarrow> bytes \<Rightarrow> string \<Rightarrow> error + bytes" where
  "a2b_base64 quad_pos leftchar pads out [] =
     (if quad_pos \<noteq> 0 then Inl BinasciiError else Inr out)"
| "a2b_base64 quad_pos leftchar pads out (c # cs) =
     (if c = CHR ''='' then
        (if 2 \<le> quad_pos \<and> 4 \<le> quad_pos + (pads + 1) then Inr out
         else a2b_base64 quad_pos leftchar (if 2 \<le> quad_pos then pads + 1 else pads) out cs)
      else
        (case b64_index c of
           None \<Rightarrow> a2b_base64 quad_pos leftchar pads out cs
         | Some v \<Rightarrow>
            (if quad_pos = 0 then a2b_base64 1 v 0 out cs
             else if quad_pos = 1 then
               a2b_base64 2 (v mod 16) 0 (out @ [of_nat (leftchar * 4 + v div 16)]) cs
             else if quad_pos = 2 then
               a2b_base64 3 (v mod 4) 0 (out @ [of_nat (leftchar * 16 + v div 4)]) cs
             else a2b_base64 0 0 0 (out @ [of_nat (leftchar * 64 + v)]) cs)))"

definition b64decode :: "string \<Rightarrow> error + bytes" where
  "b64decode s =
     (if \<exists>c \<in> set s. 128 \<le> (of_char c :: nat) then Inl ValueError
      else a2b_base64 0 0 0 [] s)"

section \<open>The disk\<close>

text \<open>The operating system resolves every path it is given; \<open>abspath\<close> stands for that
  resolution as well as for the explicit calls of \<open>os.path.abspath\<close>. A file written at
  clock reading \<open>now\<close> (nanoseconds) gets the modification time \<open>now / 10^9\<close> seconds.\<close>

definition seconds :: "int \<Rightarrow> real" where
  "seconds now = real_of_int now / 1000000000"

definition stat :: "'m env \<Rightarrow> disk \<Rightarrow> path \<Rightarrow> error + regular_file" where
  "stat env d p =
     (case map_of d (abspath env p) of None \<Rightarrow> Inl FileNotFoundError | Some f \<Rightarrow> Inr f)"

definition read_file :: "'m env \<Rightarrow> disk \<Rightarrow> path \<Rightarrow> error + bytes" where
  "read_file env d p =
     (case map_of d (abspath env p) of
        None \<Rightarrow> Inl FileNotFoundError
      | Some f \<Rightarrow> Inr (content f))"

definition write_file :: "'m env \<Rightarrow> int \<Rightarrow> disk \<Rightarrow> path \<Rightarrow> bytes \<Rightarrow> disk" where
  "write_file env now d p data =
     AList.update (abspath env p) \<lparr>content = data, mtime = seconds now\<rparr> d"

definition path_exists :: "'m env \<Rightarrow> disk \<Rightarrow> path \<Rightarrow> bool" where
  "path_exists env d p = (map_of d (abspath env p) \<noteq> None)"

text \<open>\<open>os.replace\<close> and \<open>os.rename\<close>: the file moves to the destination as one step or the
  call raises and nothing has changed.\<close>

definition os_replace :: "'m env \<Rightarrow> disk \<Rightarrow> path \<Rightarrow> path \<Rightarrow> error + disk" where
  "os_replace env d src dst =
     (if replace_fails env src dst then Inl OSError
      else case map_of d (abspath env src) of
        None \<Rightarrow> Inl FileNotFoundError
      | Some f \<Rightarrow> Inr (AList.update (abspath env dst) f (AList.delete (abspath env src) d)))"

definition os_utime :: "'m env \<Rightarrow> disk \<Rightarrow> path \<Rightarrow> real option \<Rightarrow> error + disk" where
  "os_utime env d p t =
     (case t of
        None \<Rightarrow> Inl TypeError
      | Some m \<Rightarrow>
         (case map_of d (abspath env p) of
            None \<Rightarrow> Inl FileNotFoundError
          | Some f \<Rightarrow> Inr (AList.update (abspath env p) (f\<lparr>mtime := m\<rparr>) d)))"

text \<open>\<open>os.path.join\<close> for two POSIX paths.\<close>

definition path_join :: "path \<Rightarrow> path \<Rightarrow> path" where
  "path_join a b =
     (if b \<noteq> [] \<and> hd b = CHR ''/'' then b
      else if a = [] \<or> last a = CHR ''/'' then a @ b
      else a @ ''/'' @ b)"

section \<open>\<open>FileSync\<close> (file\_sync.py)\<close>

definition get_signature_file_path :: "'m env \<Rightarrow> path \<Rightarrow> path" where
  "get_signature_file_path env relative_file_path =
     path_join (signatures_dir env) (relative_file_path @ ''.sig'')"

definition compute_signature :: "'m env \<Rightarrow> disk \<Rightarrow> path \<Rightarrow> error + signature" where
  "compute_signature env d file_path =
     (case read_file env d file_path of
        Inl e \<Rightarrow> Inl e
      | Inr data \<Rightarrow> Inr (blockchecksums env data))"

fun flatten_signature :: "'m env \<Rightarrow> bytes \<Rightarrow> signature \<Rightarrow> error + bytes" where
  "flatten_signature env flattened_data [] = Inr flattened_data"
| "flatten_signature env flattened_data ((weak_checksum, strong_checksum) # rest) =
     (case pack_L16s env weak_checksum strong_checksum of
        Inl e \<Rightarrow> Inl e
      | Inr packed \<Rightarrow> flatten_signature env (flattened_data @ packed) rest)"

definition save_signature ::
  "'m env \<Rightarrow> int \<Rightarrow> disk \<Rightarrow> signature \<Rightarrow> path \<Rightarrow> error + (disk \<times> bytes)" where
  "save_signature env now d signature relative_file_path =
     (let signature_file_path = get_signature_file_path env relative_file_path in
      case flatten_signature env [] signature of
        Inl e \<Rightarrow> Inl e
      | Inr flattened_data \<Rightarrow>
         (let compressed_data = zlib_compress env flattened_data
          in Inr (write_file env now d signature_file_path compressed_data, compressed_data)))"

function unpack_records :: "'m env \<Rightarrow> bytes \<Rightarrow> signature \<Rightarrow> error + signature" where
  "unpack_records env flattened_data signature =
     (if flattened_data = [] then Inr signature
      else case unpack_L16s env (take (calcsize env) flattened_data) of
        Inl e \<Rightarrow> Inl e
      | Inr sig \<Rightarrow> unpack_records env (drop (calcsize env) flattened_data) (signature @ [sig]))"
  by pat_completeness auto
termination
  by (relation "measure (\<lambda>(env, flattened_data, signature). length flattened_data)")
     (auto simp: unpack_L16s_def calcsize_def split: if_splits)

definition parse_signature :: "'m env \<Rightarrow> bytes \<Rightarrow> error + signature" where
  "parse_signature env signature_data =
     (case zlib_decompress env signature_data of
        Inl e \<Rightarrow> Inl e
      | Inr flattened_data \<Rightarrow> unpack_records env flattened_data [])"

definition load_signature :: "'m env \<Rightarrow> disk \<Rightarrow> path \<Rightarrow> error + signature option" where
  "load_signature env d relative_file_path =
     (let signature_file_path = get_signature_file_path env relative_file_path in
      if \<not> path_exists env d signature_file_path then Inr None
      else case read_file env d signature_file_path of
        Inl e \<Rightarrow> Inl e
      | Inr compressed_data \<Rightarrow> map_sum id Some (parse_signature env compressed_data))"

definition generate_delta :: "'m env \<Rightarrow> disk \<Rightarrow> signature \<Rightarrow> path \<Rightarrow> error + pyval list" where
  "generate_delta env d signature_data new_file_path =
     (case read_file env d new_file_path of
        Inl e \<Rightarrow> Inl e
      | Inr new_file \<Rightarrow> Inr (rsyncdelta env new_file signature_data))"

text \<open>\<open>apply_delta\<close>: the \<open>try\<close> block is the inner \<open>case\<close>; the \<open>finally\<close> block runs on its
  disk, whatever its outcome.\<close>

definition apply_delta ::
  "'m env \<Rightarrow> int \<Rightarrow> disk \<Rightarrow> path \<Rightarrow> pyval list \<Rightarrow> (error + unit) \<times> disk" where
  "apply_delta env now d base_file_path delta_data =
     (let temp_file_path = mktemp env d;
          d0 = write_file env now d temp_file_path [];
          (outcome, d1) =
            (case read_file env d0 base_file_path of
               Inl e \<Rightarrow> (Inl e, d0)
             | Inr base_file \<Rightarrow>
                (let (written, raised) = patchstream env base_file delta_data;
                     d' = write_file env now d0 temp_file_path written
                 in case raised of
                      Some e \<Rightarrow> (Inl e, d')
                    | None \<Rightarrow>
                       (case os_replace env d' temp_file_path base_file_path of
                          Inl e \<Rightarrow> (Inl e, d')
                        | Inr d'' \<Rightarrow> (Inr (), d''))))
      in (outcome,
          if path_exists env d1 temp_file_path
          then AList.delete (abspath env temp_file_path) d1 else d1))"

fun serialize_loop :: "pyval list \<Rightarrow> pyval list \<Rightarrow> error + pyval list" where
  "serialize_loop serialized [] = Inr serialized"
| "serialize_loop serialized (item # rest) =
     (if isinstance_int item then serialize_loop (serialized @ [item]) rest
      else case item of
        PBytes b \<Rightarrow> serialize_loop (serialized @ [PStr (b64encode b)]) rest
      | _ \<Rightarrow> Inl ValueError)"

definition serialize_delta_data :: "pyval list \<Rightarrow> error + pyval list" where
  "serialize_delta_data delta_data = serialize_loop [] delta_data"

fun deserialize_loop :: "pyval list \<Rightarrow> pyval list \<Rightarrow> error + pyval list" where
  "deserialize_loop delta_data [] = Inr delta_data"
| "deserialize_loop delta_data (item # rest) =
     (if isinstance_int item then deserialize_loop (delta_data @ [item]) rest
      else case item of
        PStr s \<Rightarrow>
          (case b64decode s of
             Inl e \<Rightarrow> Inl e
           | Inr b \<Rightarrow> deserialize_loop (delta_data @ [PBytes b]) rest)
      | _ \<Rightarrow> Inl ValueError)"

definition deserialize_delta_data :: "pyval list \<Rightarrow> error + pyval list" where
  "deserialize_delta_data serialized_data = deserialize_loop [] serialized_data"

section \<open>Messages and processes\<close>

text \<open>A manifest entry of \<open>DIRECTORY_STATE\<close>, an entry of \<open>DELTA_TRANSFER\<close> and the payload of
  \<open>MODIFICATION_UPDATE\<close>. A key read with \<open>.get\<close> or \<open>[...]\<close> that may be absent is an
  \<open>option\<close>. Dictionaries are association lists in insertion order.\<close>

record file_state =
  fs_mtime :: real
  fs_size :: nat
  fs_signature :: string

record file_info =
  fi_delta :: "pyval list option"
  fi_mtime :: "real option"
  fi_action :: "string option"
  fi_is_full_file :: "bool option"

record update =
  up_file_path :: path
  up_action :: "string option"
  up_mtime :: "real option"
  up_delta :: "pyval list option"
  up_dest_path :: "path option"
  up_is_full_file :: "bool option"

datatype payload =
    DirectoryState "(path \<times> file_state) list"
  | DeltaTransfer "(path \<times> file_info) list"
  | ModificationUpdate update

type_synonym message = "string \<times> payload"

type_synonym node_id = "string \<times> nat"

text \<open>A peer session. \<open>socket_open\<close> is \<open>self.socket is not None\<close>; \<open>wire_out\<close> lists the
  arguments of \<open>sendall\<close> so far; \<open>wire_in\<close> lists what the coming calls of \<open>recv\<close> return,
  and once it is used up the peer has closed the connection (\<open>recv\<close> returns \<open>b''\<close>).\<close>

record node =
  ip :: string
  tcp_port :: nat
  socket_open :: bool
  wire_out :: "bytes list"
  wire_in :: "bytes list"
  is_synchronized :: bool
  buffer :: bytes
  stop_event :: bool

datatype level = INFO | WARNING | ERROR

text \<open>The state of the process: the disk, \<open>NodeManager.ignore_events\<close> (the echo-guard
  table), \<open>NodeManager.nodes\<close>, \<open>ChangeHandler.last_trigger_time\<close>, the manager's stop event
  and the log. The text of an exception (\<open>{e}\<close>) and the dumps of deltas are not part of a
  logged line here.\<close>

record world =
  disk :: disk
  ignore_events :: "(path \<times> int) list"
  nodes :: "(node_id \<times> node) list"
  last_trigger_time :: int
  manager_stopped :: bool
  log :: "(level \<times> string) list"

text \<open>How a call ends: it returns, it raises, or it never returns. The last happens when
  \<open>send_message\<close> fails: its handler calls \<open>close_connection\<close> while \<open>self.lock\<close>, a
  \<open>threading.Lock\<close>, is still held, and \<open>close_connection\<close> acquires the same lock.\<close>

datatype status = Returned | Raised error | Blocked

definition logging :: "level \<Rightarrow> string \<Rightarrow> world \<Rightarrow> world" where
  "logging lv msg w = w\<lparr>log := log w @ [(lv, msg)]\<rparr>"

function str_nat :: "nat \<Rightarrow> string" where
  "str_nat n =
     (if n < 10 then [char_of (48 + n)] else str_nat (n div 10) @ [char_of (48 + n mod 10)])"
  by pat_completeness auto
termination
  by (relation "measure id") auto

definition peer_str :: "node \<Rightarrow> string" where
  "peer_str n = ip n @ '':'' @ str_nat (tcp_port n)"

section \<open>\<open>Node\<close> (node.py)\<close>

definition Node_init :: "string \<Rightarrow> nat \<Rightarrow> bytes list \<Rightarrow> node" where
  "Node_init ip0 tcp_port0 sock =
     \<lparr>ip = ip0, tcp_port = tcp_port0, socket_open = True, wire_out = [], wire_in = sock,
      is_synchronized = False, buffer = [], stop_event = False\<rparr>"

definition close_connection :: "node \<Rightarrow> node" where
  "close_connection n = n\<lparr>stop_event := True, socket_open := False\<rparr>"

text \<open>The body of the \<open>try\<close> block of \<open>send_message\<close> up to \<open>sendall\<close>: the bytes of one frame.\<close>

definition encode_message :: "(string \<times> 'p) env \<Rightarrow> string \<Rightarrow> 'p \<Rightarrow> error + bytes" where
  "encode_message env message_type payload' =
     (case json_dumps env (message_type, payload') of
        Inl e \<Rightarrow> Inl e
      | Inr message_bytes \<Rightarrow>
         (let compressed_message = zlib_compress env message_bytes in
          case pack_Q (length compressed_message) of
            Inl e \<Rightarrow> Inl e
          | Inr length_prefix \<Rightarrow> Inr (length_prefix @ compressed_message)))"

definition sendall :: "node \<Rightarrow> bytes \<Rightarrow> error + node" where
  "sendall n data =
     (if socket_open n then Inr (n\<lparr>wire_out := wire_out n @ [data]\<rparr>) else Inl AttributeError)"

definition send_message ::
  "(string \<times> 'p) env \<Rightarrow> world \<times> node \<Rightarrow> string \<Rightarrow> 'p \<Rightarrow> status \<times> world \<times> node" where
  "send_message env wn message_type payload' =
     (let (w, n) = wn in
      case (case encode_message env message_type payload' of
              Inl e \<Rightarrow> Inl e
            | Inr data \<Rightarrow> sendall n data) of
        Inr n' \<Rightarrow>
          (Returned,
           logging INFO (''Sent '' @ message_type @ '' message to '' @ peer_str n) w, n')
      | Inl e \<Rightarrow>
          (Blocked,
           logging ERROR (''Error sending message to '' @ peer_str n @ '': '') w,
           n\<lparr>stop_event := True\<rparr>))"

text \<open>The two \<open>while\<close> loops of \<open>receive_message\<close>: read from the socket until the buffer
  holds \<open>need\<close> bytes. The result is the exception raised, if any, the buffer and what is
  left to arrive.\<close>

fun fill_buffer ::
  "bool \<Rightarrow> nat \<Rightarrow> bytes \<Rightarrow> bytes list \<Rightarrow> error option \<times> bytes \<times> bytes list" where
  "fill_buffer sock need buf [] =
     (if length buf < need
      then (Some (if sock then ConnectionError else AttributeError), buf, [])
      else (None, buf, []))"
| "fill_buffer sock need buf (data # rest) =
     (if length buf < need then
        (if \<not> sock then (Some AttributeError, buf, data # rest)
         else if data = [] then (Some ConnectionError, buf, rest)
         else fill_buffer sock need (buf @ data) rest)
      else (None, buf, data # rest))"

text \<open>The body of the \<open>try\<close> block of \<open>receive_message\<close>, on the buffer and the socket.\<close>

definition receive_frame ::
  "'m env \<Rightarrow> bool \<Rightarrow> bytes \<Rightarrow> bytes list \<Rightarrow> (error + 'm) \<times> bytes \<times> bytes list" where
  "receive_frame env sock buf0 incoming =
     (case fill_buffer sock 8 buf0 incoming of
        (Some e, buf, rest) \<Rightarrow> (Inl e, buf, rest)
      | (None, buf, rest) \<Rightarrow>
         (let length_prefix = take 8 buf; buf1 = drop 8 buf in
          case unpack_Q length_prefix of
            Inl e \<Rightarrow> (Inl e, buf1, rest)
          | Inr message_length \<Rightarrow>
             (case fill_buffer sock message_length buf1 rest of
                (Some e, buf2, rest2) \<Rightarrow> (Inl e, buf2, rest2)
              | (None, buf2, rest2) \<Rightarrow>
                 (let message_body = take message_length buf2;
                      buf3 = drop message_length buf2 in
                  case zlib_decompress env message_body of
                    Inl e \<Rightarrow> (Inl e, buf3, rest2)
                  | Inr decompressed_message \<Rightarrow>
                     (json_loads env decompressed_message, buf3, rest2)))))"

definition receive_message :: "'m env \<Rightarrow> world \<times> node \<Rightarrow> 'm option \<times> world \<times> node" where
  "receive_message env wn =
     (let (w, n) = wn;
          (result, buf, rest) = receive_frame env (socket_open n) (buffer n) (wire_in n);
          n' = n\<lparr>buffer := buf, wire_in := rest\<rparr>
      in case result of
           Inr message \<Rightarrow> (Some message, w, n')
         | Inl e \<Rightarrow>
            (None,
             logging ERROR (''Error receiving message from '' @ peer_str n @ '': '') w,
             close_connection n'))"







text \<open>\<open>b''.join(delta_data)\<close> raises on an element that is not a byte string.\<close>

fun join_bytes :: "pyval list \<Rightarrow> error + bytes" where
  "join_bytes [] = Inr []"
| "join_bytes (PBytes b # rest) = map_sum id (\<lambda>r. b @ r) (join_bytes rest)"
| "join_bytes (v # rest) = Inl TypeError"

text \<open>The lines both handlers run after the file has been written: \<open>os.utime\<close>, the log
  line, and the new signature. The result is the exception raised, if any.\<close>

definition finish_apply ::
  "'m env \<Rightarrow> int \<Rightarrow> world \<Rightarrow> path \<Rightarrow> path \<Rightarrow> real option \<Rightarrow> string
   \<Rightarrow> error option \<times> world" where
  "finish_apply env now w file_path full_path mtime' info =
     (case os_utime env (disk w) full_path mtime' of
        Inl e \<Rightarrow> (Some e, w)
      | Inr d1 \<Rightarrow>
         (let w1 = logging INFO info (w\<lparr>disk := d1\<rparr>) in
          case compute_signature env d1 full_path of
            Inl e \<Rightarrow> (Some e, w1)
          | Inr new_signature \<Rightarrow>
             (case save_signature env now d1 new_signature file_path of
                Inl e \<Rightarrow> (Some e, w1)
              | Inr (d2, compressed) \<Rightarrow> (None, w1\<lparr>disk := d2\<rparr>))))"

text \<open>Writing the full content: \<open>open(full_path, 'wb')\<close> empties the file before
  \<open>b''.join\<close> is evaluated.\<close>

definition write_full_file ::
  "'m env \<Rightarrow> int \<Rightarrow> world \<Rightarrow> path \<Rightarrow> pyval list \<Rightarrow> error option \<times> world" where
  "write_full_file env now w full_path delta_data =
     (case join_bytes delta_data of
        Inl e \<Rightarrow> (Some e, w\<lparr>disk := write_file env now (disk w) full_path []\<rparr>)
      | Inr data \<Rightarrow> (None, w\<lparr>disk := write_file env now (disk w) full_path data\<rparr>))"

text \<open>One iteration of the loop of \<open>handle_delta_transfer\<close>. The \<open>try\<close> block is
  \<open>delta_transfer_try\<close>; its result says whether the iteration ended by \<open>continue\<close>.\<close>

definition delta_transfer_try ::
  "'m env \<Rightarrow> int \<Rightarrow> world \<Rightarrow> path \<Rightarrow> path \<Rightarrow> real \<Rightarrow> bool \<Rightarrow> pyval list
   \<Rightarrow> error option \<times> world" where
  "delta_transfer_try env now w file_path full_path mtime' is_full_file delta_data =
     (if delta_data \<noteq> [] then
        (if is_full_file then
           (case write_full_file env now w full_path delta_data of
              (Some e, w') \<Rightarrow> (Some e, w')
            | (None, w') \<Rightarrow>
               finish_apply env now w' file_path full_path (Some mtime')
                 (''Received file '' @ file_path))
         else
           (case load_signature env (disk w) file_path of
              Inl e \<Rightarrow> (Some e, w)
            | Inr old_signature \<Rightarrow>
               (if old_signature = None \<or> old_signature = Some [] then
                  (None,
                   logging WARNING
                     (''No signature found for '' @ file_path @ '', cannot apply delta.'') w)
                else
                  (case apply_delta env now (disk w) full_path delta_data of
                     (Inl e, d') \<Rightarrow> (Some e, w\<lparr>disk := d'\<rparr>)
                   | (Inr u, d') \<Rightarrow>
                      finish_apply env now (w\<lparr>disk := d'\<rparr>) file_path full_path
                        (Some mtime') (''Received file '' @ file_path)))))
      else
        finish_apply env now (w\<lparr>disk := write_file env now (disk w) full_path []\<rparr>)
          file_path full_path (Some mtime') (''Received file '' @ file_path))"

definition delta_transfer_entry ::
  "'m env \<Rightarrow> int \<Rightarrow> world \<Rightarrow> path \<Rightarrow> file_info \<Rightarrow> status \<times> world" where
  "delta_transfer_entry env now w file_path file_info' =
     (let full_path = abspath env (path_join (monitored_directory env) file_path) in
      case fi_mtime file_info' of
        None \<Rightarrow> (Raised KeyError, w)
      | Some mtime' \<Rightarrow>
         (let is_full_file = (case fi_is_full_file file_info' of None \<Rightarrow> False | Some b \<Rightarrow> b) in
          case (case fi_delta file_info' of
                  None \<Rightarrow> Inr []
                | Some serialized_delta \<Rightarrow>
                   if serialized_delta \<noteq> [] then deserialize_delta_data serialized_delta
                   else Inr []) of
            Inl e \<Rightarrow> (Raised e, w)
          | Inr delta_data \<Rightarrow>
             (let w1 = w\<lparr>ignore_events := AList.update full_path now (ignore_events w)\<rparr> in
              case delta_transfer_try env now w1 file_path full_path mtime' is_full_file
                     delta_data of
                (Some e, w') \<Rightarrow>
                  (Returned, logging ERROR (''Error applying delta to '' @ file_path @ '': '') w')
              | (None, w') \<Rightarrow> (Returned, w'))))"

fun handle_delta_transfer ::
  "'m env \<Rightarrow> (path \<Rightarrow> int) \<Rightarrow> world \<Rightarrow> (path \<times> file_info) list \<Rightarrow> status \<times> world" where
  "handle_delta_transfer env clock w [] = (Returned, w)"
| "handle_delta_transfer env clock w ((file_path, file_info') # rest) =
     (case delta_transfer_entry env (clock file_path) w file_path file_info' of
        (Returned, w') \<Rightarrow> handle_delta_transfer env clock w' rest
      | r \<Rightarrow> r)"

definition lower :: "string \<Rightarrow> string" where
  "lower s =
     map (\<lambda>c. if 65 \<le> (of_char c :: nat) \<and> (of_char c :: nat) \<le> 90
              then char_of (of_char c + 32 :: nat) else c) s"

text \<open>The \<open>try\<close> block of the \<open>MODIFY\<close>/\<open>CREATE\<close> branch of \<open>handle_modification_update\<close>.\<close>

definition modification_try ::
  "'m env \<Rightarrow> int \<Rightarrow> world \<Rightarrow> path \<Rightarrow> path \<Rightarrow> real option \<Rightarrow> string \<Rightarrow> bool
   \<Rightarrow> pyval list \<Rightarrow> error option \<times> world" where
  "modification_try env now w file_path full_path mtime' action is_full_file delta_data =
     (if delta_data \<noteq> [] then
        (if is_full_file then
           (case write_full_file env now w full_path delta_data of
              (Some e, w') \<Rightarrow> (Some e, w')
            | (None, w') \<Rightarrow>
               finish_apply env now w' file_path full_path mtime'
                 (''File '' @ lower action @ ''d: '' @ file_path))
         else
           (if \<not> path_exists env (disk w) full_path then
              (None,
               logging WARNING (''Base file for delta does not exist: '' @ file_path) w)
            else
              (case apply_delta env now (disk w) full_path delta_data of
                 (Inl e, d') \<Rightarrow> (Some e, w\<lparr>disk := d'\<rparr>)
               | (Inr u, d') \<Rightarrow>
                  finish_apply env now (w\<lparr>disk := d'\<rparr>) file_path full_path mtime'
                    (''File '' @ lower action @ ''d: '' @ file_path))))
      else
        finish_apply env now (w\<lparr>disk := write_file env now (disk w) full_path []\<rparr>)
          file_path full_path mtime' (''File '' @ lower action @ ''d: '' @ file_path))"



section \<open>\<open>NodeManager\<close> (node\_manager.py)\<close>

text \<open>A node object is shared between the registry and the code that runs on it; here the
  node is passed along and stored back under its key.\<close>

definition store_node :: "node_id \<Rightarrow> status \<times> world \<times> node \<Rightarrow> status \<times> world" where
  "store_node node_id r =
     (let (st, w, n) = r in (st, w\<lparr>nodes := AList.update node_id n (nodes w)\<rparr>))"





text \<open>The loop of \<open>broadcast_update\<close> over \<open>self.nodes.values()\<close>.\<close>

fun broadcast_loop ::
  "message env \<Rightarrow> update \<Rightarrow> world \<Rightarrow> (node_id \<times> node) list \<Rightarrow> status \<times> world" where
  "broadcast_loop env payload' w [] = (Returned, w)"
| "broadcast_loop env payload' w ((node_id, n) # rest) =
     (if is_synchronized n then
        (case store_node node_id
                (send_message env
                   (logging INFO (''Sending update to node '' @ peer_str n) w, n)
                   ''MODIFICATION_UPDATE'' (ModificationUpdate payload')) of
           (Returned, w') \<Rightarrow> broadcast_loop env payload' w' rest
         | r \<Rightarrow> r)
      else broadcast_loop env payload' w rest)"

definition broadcast_update :: "message env \<Rightarrow> world \<Rightarrow> update \<Rightarrow> status \<times> world" where
  "broadcast_update env w payload' =
     broadcast_loop env payload'
       (logging INFO
          (''sending action: '' @ (case up_action payload' of None \<Rightarrow> ''None'' | Some a \<Rightarrow> a)
           @ '', delta: '') w)
       (nodes w)"



section \<open>\<open>ChangeHandler\<close> (event\_handler.py)\<close>

record event =
  is_directory :: bool
  src_path :: path
  dest_path :: path

text \<open>\<open>if ignore_time:\<close> holds for an entry that is present and not zero.\<close>

definition should_ignore :: "'m env \<Rightarrow> int \<Rightarrow> world \<Rightarrow> event \<Rightarrow> bool \<times> world" where
  "should_ignore env event_time w ev =
     (if is_directory ev then (True, w)
      else
        (let full_path = abspath env (src_path ev);
             ignore_time = map_of (ignore_events w) full_path in
         if ignore_time \<noteq> None \<and> ignore_time \<noteq> Some 0 then
           (if event_time < the ignore_time + 500000000
            then (True, logging INFO ''ignoring event created by ourself'' w)
            else (False, w\<lparr>ignore_events := AList.delete full_path (ignore_events w)\<rparr>))
         else (False, w)))"

definition handle_modify_create ::
  "message env \<Rightarrow> int \<Rightarrow> world \<Rightarrow> path \<Rightarrow> string \<Rightarrow> status \<times> world" where
  "handle_modify_create env now w src action =
     (let relative_path = relpath env src (monitored_directory env);
          failed = (\<lambda>w'. (Returned,
                      logging ERROR (''Error handling file '' @ relative_path @ '': '') w'))
      in
      case stat env (disk w) src of
        Inl e \<Rightarrow> failed w
      | Inr st \<Rightarrow>
      (case load_signature env (disk w) relative_path of
        Inl e \<Rightarrow> failed w
      | Inr old_signature \<Rightarrow>
      (case compute_signature env (disk w) src of
        Inl e \<Rightarrow> failed w
      | Inr new_signature \<Rightarrow>
      (case (if old_signature \<noteq> None \<and> old_signature \<noteq> Some []
             then map_sum id (\<lambda>delta_data. (delta_data, False))
                    (generate_delta env (disk w) (the old_signature) src)
             else map_sum id (\<lambda>data. ([PBytes data], True)) (read_file env (disk w) src)) of
        Inl e \<Rightarrow> failed w
      | Inr (delta_data, is_full_file) \<Rightarrow>
      (case save_signature env now (disk w) new_signature relative_path of
        Inl e \<Rightarrow> failed w
      | Inr (d1, compressed) \<Rightarrow>
      (case serialize_delta_data delta_data of
        Inl e \<Rightarrow> failed (w\<lparr>disk := d1\<rparr>)
      | Inr serialized_delta \<Rightarrow>
      (case broadcast_update env (w\<lparr>disk := d1\<rparr>)
              \<lparr>up_file_path = relative_path, up_action = Some action,
               up_mtime = Some (mtime st), up_delta = Some serialized_delta,
               up_dest_path = None, up_is_full_file = Some is_full_file\<rparr> of
        (Returned, w2) \<Rightarrow>
          (Returned, logging INFO (''File '' @ lower action @ ''d: '' @ relative_path) w2)
      | r \<Rightarrow> r)))))))"

definition on_modified ::
  "message env \<Rightarrow> int \<Rightarrow> int \<Rightarrow> world \<Rightarrow> event \<Rightarrow> status \<times> world" where
  "on_modified env event_time current_time w ev =
     (case should_ignore env event_time w ev of
        (True, w1) \<Rightarrow> (Returned, w1)
      | (False, w1) \<Rightarrow>
         (if CHR ''~'' \<notin> set (src_path ev)
             \<and> current_time - last_trigger_time w1 > 100000000
          then handle_modify_create env current_time
                 (w1\<lparr>last_trigger_time := current_time\<rparr>) (src_path ev) ''MODIFY''
          else (Returned, w1)))"

definition on_created :: "message env \<Rightarrow> int \<Rightarrow> world \<Rightarrow> event \<Rightarrow> status \<times> world" where
  "on_created env event_time w ev =
     (case should_ignore env event_time w ev of
        (True, w1) \<Rightarrow> (Returned, w1)
      | (False, w1) \<Rightarrow> handle_modify_create env event_time w1 (src_path ev) ''CREATE'')"

definition on_deleted :: "message env \<Rightarrow> int \<Rightarrow> world \<Rightarrow> event \<Rightarrow> status \<times> world" where
  "on_deleted env event_time w ev =
     (case should_ignore env event_time w ev of
        (True, w1) \<Rightarrow> (Returned, w1)
      | (False, w1) \<Rightarrow>
         (let relative_path = relpath env (src_path ev) (monitored_directory env);
              signature_file_path = get_signature_file_path env relative_path;
              w2 = (if path_exists env (disk w1) signature_file_path
                    then w1\<lparr>disk := AList.delete (abspath env signature_file_path) (disk w1)\<rparr>
                    else w1)
          in case broadcast_update env w2
                    \<lparr>up_file_path = relative_path, up_action = Some ''DELETE'',
                     up_mtime = Some (seconds event_time), up_delta = None,
                     up_dest_path = None, up_is_full_file = None\<rparr> of
               (Returned, w3) \<Rightarrow>
                 (Returned, logging INFO (''File deleted: '' @ relative_path) w3)
             | r \<Rightarrow> r))"

definition on_moved :: "message env \<Rightarrow> int \<Rightarrow> world \<Rightarrow> event \<Rightarrow> status \<times> world" where
  "on_moved env event_time w ev =
     (case should_ignore env event_time w ev of
        (True, w1) \<Rightarrow> (Returned, w1)
      | (False, w1) \<Rightarrow>
         (let src_relative_path = relpath env (src_path ev) (monitored_directory env);
              dest_relative_path = relpath env (dest_path ev) (monitored_directory env);
              src_signature_path = get_signature_file_path env src_relative_path;
              dest_signature_path = get_signature_file_path env dest_relative_path
          in case (if path_exists env (disk w1) src_signature_path
                   then map_sum id (\<lambda>d. w1\<lparr>disk := d\<rparr>)
                          (os_replace env (disk w1) src_signature_path dest_signature_path)
                   else Inr w1) of
               Inl e \<Rightarrow> (Raised e, w1)
             | Inr w2 \<Rightarrow>
                (case broadcast_update env w2
                        \<lparr>up_file_path = src_relative_path, up_action = Some ''RENAME'',
                         up_mtime = Some (seconds event_time), up_delta = None,
                         up_dest_path = Some dest_relative_path, up_is_full_file = None\<rparr> of
                   (Returned, w3) \<Rightarrow>
                     (Returned,
                      logging INFO
                        (''File renamed from '' @ src_relative_path @ '' to ''
                         @ dest_relative_path) w3)
                 | r \<Rightarrow> r)))"

declare unpack_records.simps [simp del]
declare str_nat.simps [simp del]

section \<open>Notions used in the statements\<close>

text \<open>A signature entry that \<open>struct.pack("L16s", ...)\<close> stores without loss: the weak
  checksum fits an unsigned long and the strong checksum has sixteen bytes.\<close>

definition packable :: "'m env \<Rightarrow> int \<times> bytes \<Rightarrow> bool" where
  "packable env entry =
     (0 \<le> fst entry \<and> fst entry < 2 ^ (8 * sizeof_long env) \<and> length (snd entry) = 16)"

section \<open>A concrete platform\<close>

text \<open>A small platform on which the model runs: paths are already canonical, \<open>zlib\<close> stores
  the data as it is, a message is written as its type alone, blocks have four bytes, and a
  delta is the new content as one literal chunk.\<close>

fun example_blocks :: "bytes \<Rightarrow> signature" where
  "example_blocks (a # b # c # d # rest) =
     (int (unat a + unat b + unat c + unat d), replicate 16 a) # example_blocks rest"
| "example_blocks [] = []"
| "example_blocks bs = [(int (sum_list (map unat bs)), replicate 16 (hd bs))]"

fun example_patch :: "bytes \<Rightarrow> bytes \<Rightarrow> pyval list \<Rightarrow> bytes \<times> error option" where
  "example_patch base out [] = (out, None)"
| "example_patch base out (PInt i # rest) =
     example_patch base (out @ take 4 (drop (4 * nat i) base)) rest"
| "example_patch base out (PBytes b # rest) = example_patch base (out @ b) rest"
| "example_patch base out (v # rest) = (out, Some TypeError)"

definition example_env :: "message env" where
  "example_env =
     \<lparr>abspath = (\<lambda>p. p),
      relpath = (\<lambda>p start. drop (length start + 1) p),
      monitored_directory = ''/m'',
      signatures_dir = ''/s'',
      sizeof_long = 8,
      zlib_compress = (\<lambda>b. b),
      zlib_decompress = Inr,
      json_dumps = (\<lambda>m. Inr (map (\<lambda>c. of_nat (of_char c)) (fst m))),
      json_loads = (\<lambda>b. Inr (map (\<lambda>x. char_of (unat x)) b, DirectoryState [])),
      blockchecksums = example_blocks,
      rsyncdelta = (\<lambda>new_file signature. if new_file = [] then [] else [PBytes new_file]),
      patchstream = (\<lambda>base delta. example_patch base [] delta),
      mktemp = (\<lambda>d. ''/tmp/t''),
      os_walk = (\<lambda>d top. filter (\<lambda>k. take (length top + 1) k = top @ ''/'') (map fst d)),
      replace_fails = (\<lambda>src dst. False),
      connect_fails = (\<lambda>ip0 port. False)\<rparr>"

definition example_world :: world where
  "example_world =
     \<lparr>disk = [], ignore_events = [], nodes = [], last_trigger_time = 0,
      manager_stopped = False, log = []\<rparr>"

section \<open>Sequences of calls\<close>

text \<open>Sending a list of messages to a peer one after the other, and calling
  \<open>receive_message\<close> a number of times, collecting the messages until one call returns
  \<open>None\<close>.\<close>

fun send_messages ::
  "(string \<times> 'p) env \<Rightarrow> world \<times> node \<Rightarrow> (string \<times> 'p) list \<Rightarrow> status \<times> world \<times> node" where
  "send_messages env wn [] = (Returned, wn)"
| "send_messages env wn ((message_type, payload') # rest) =
     (case send_message env wn message_type payload' of
        (Returned, wn') \<Rightarrow> send_messages env wn' rest
      | r \<Rightarrow> r)"

fun receive_messages :: "'m env \<Rightarrow> nat \<Rightarrow> world \<times> node \<Rightarrow> 'm list \<times> world \<times> node" where
  "receive_messages env 0 wn = ([], wn)"
| "receive_messages env (Suc k) wn =
     (case receive_message env wn of
        (None, wn') \<Rightarrow> ([], wn')
      | (Some message', wn') \<Rightarrow>
         (let (messages, wn'') = receive_messages env k wn' in (message' # messages, wn'')))"


section \<open>Entries of a \<open>DELTA_TRANSFER\<close>\<close>



section \<open>Runs of the process\<close>

text \<open>The type of the message a peer reads from one frame, and whether a
  \<open>MODIFICATION_UPDATE\<close> is among the frames written to a peer's socket.\<close>

definition frame_type :: "message env \<Rightarrow> bytes \<Rightarrow> string option" where
  "frame_type env frame =
     (case receive_frame env True [] [frame] of
        (Inr message', buf, rest) \<Rightarrow> Some (fst message')
      | (Inl e, buf, rest) \<Rightarrow> None)"

definition sent_update :: "message env \<Rightarrow> node \<Rightarrow> bool" where
  "sent_update env n =
     (\<exists>frame \<in> set (wire_out n). frame_type env frame = Some ''MODIFICATION_UPDATE'')"



text \<open>What happens in the process, one call at a time: the discovery thread connects, the
  server thread accepts, a listener thread runs one iteration of its loop, the watcher
  delivers an event, the main thread stops the manager.\<close>

datatype action =
    Connect "path \<Rightarrow> int" string nat "bytes list"
  | Accept "path \<Rightarrow> int" "bytes list" string nat
  | Remove string nat
  | Listen "path \<Rightarrow> int" node_id
  | Modified int int event
  | Created int event
  | Deleted int event
  | Moved int event
  | Stop



section \<open>Base64 round trip\<close>

lemma index_of_nth: "distinct xs \<Longrightarrow> n < length xs \<Longrightarrow> index_of (xs ! n) xs = Some n"
proof (induction xs arbitrary: n)
  case Nil then show ?case by simp
next
  case (Cons x xs)
  show ?case
  proof (cases n)
    case 0 then show ?thesis by simp
  next
    case (Suc m)
    with Cons.prems have "xs ! m \<noteq> x" "m < length xs" "distinct xs" by auto
    with Cons.IH[of m] Suc show ?thesis by simp
  qed
qed

lemma distinct_b64_alphabet: "distinct b64_alphabet"
  by (simp add: b64_alphabet_def)

lemma length_b64_alphabet: "length b64_alphabet = 64"
  by (simp add: b64_alphabet_def)

lemma b64_index_char: "b64_index (b64_char v) = Some (v mod 64)"
  unfolding b64_index_def b64_char_def
  by (rule index_of_nth[OF distinct_b64_alphabet]) (simp add: length_b64_alphabet)

lemma b64_char_in: "b64_char v \<in> set b64_alphabet"
  unfolding b64_char_def by (rule nth_mem) (simp add: length_b64_alphabet)

lemma b64_alphabet_ascii: "\<forall>c \<in> set b64_alphabet. (of_char c :: nat) < 128 \<and> c \<noteq> CHR ''=''"
  by (simp add: b64_alphabet_def)

lemma b64_char_not_pad: "b64_char v \<noteq> CHR ''=''"
  using b64_char_in b64_alphabet_ascii by blast

lemma b64_char_ascii: "(of_char (b64_char v) :: nat) < 128"
  using b64_char_in b64_alphabet_ascii by blast

lemma a2b_step:
  "a2b_base64 q l p out (b64_char v # cs) =
     (if q = 0 then a2b_base64 1 (v mod 64) 0 out cs
      else if q = 1 then
        a2b_base64 2 (v mod 64 mod 16) 0 (out @ [of_nat (l * 4 + v mod 64 div 16)]) cs
      else if q = 2 then
        a2b_base64 3 (v mod 64 mod 4) 0 (out @ [of_nat (l * 16 + v mod 64 div 4)]) cs
      else a2b_base64 0 0 0 (out @ [of_nat (l * 64 + v mod 64)]) cs)"
  by (simp add: b64_char_not_pad b64_index_char)

lemma quad_bounds:
  fixes a b c :: nat
  assumes "a < 256" "b < 256" "c < 256"
  shows "a div 4 < 64" and "(a mod 4) * 16 + b div 16 < 64"
    and "(b mod 16) * 4 + c div 64 < 64" and "(a mod 4) * 16 < 64" and "(b mod 16) * 4 < 64"
proof -
  have "a mod 4 \<le> 3" "b mod 16 \<le> 15" "b div 16 \<le> 15" "c div 64 \<le> 3"
    using assms by simp_all
  then show "(a mod 4) * 16 + b div 16 < 64" "(b mod 16) * 4 + c div 64 < 64"
    "(a mod 4) * 16 < 64" "(b mod 16) * 4 < 64"
    by linarith+
  show "a div 4 < 64" using assms by simp
qed

lemma quad_arith:
  fixes a b c :: nat
  assumes "a < 256" "b < 256" "c < 256"
  shows "a div 4 * 4 + ((a mod 4) * 16 + b div 16) div 16 = a"
    and "((a mod 4) * 16 + b div 16) mod 16 * 16 + ((b mod 16) * 4 + c div 64) div 4 = b"
    and "((b mod 16) * 4 + c div 64) mod 4 * 64 + c mod 64 = c"
    and "a div 4 * 4 + ((a mod 4) * 16) div 16 = a"
    and "((a mod 4) * 16 + b div 16) mod 16 * 16 + ((b mod 16) * 4) div 4 = b"
proof -
  have b16: "b div 16 < 16" and c64: "c div 64 < 4" using assms by simp_all
  show "a div 4 * 4 + ((a mod 4) * 16 + b div 16) div 16 = a"
    using b16 by simp
  show "((a mod 4) * 16 + b div 16) mod 16 * 16 + ((b mod 16) * 4 + c div 64) div 4 = b"
    using b16 c64 by simp
  show "((b mod 16) * 4 + c div 64) mod 4 * 64 + c mod 64 = c"
    using c64 by simp
  show "a div 4 * 4 + ((a mod 4) * 16) div 16 = a" by simp
  show "((a mod 4) * 16 + b div 16) mod 16 * 16 + ((b mod 16) * 4) div 4 = b"
    using b16 by simp
qed

lemma quad_arith_masked:
  fixes a b c :: nat
  assumes "a < 256" "b < 256" "c < 256"
  shows "a div 4 mod 64 * 4 + ((a mod 4) * 16 + b div 16) mod 64 div 16 = a"
    and "((a mod 4) * 16 + b div 16) mod 64 mod 16 * 16
           + ((b mod 16) * 4 + c div 64) mod 64 div 4 = b"
    and "((b mod 16) * 4 + c div 64) mod 64 mod 4 * 64 + c mod 64 mod 64 = c"
    and "a div 4 mod 64 * 4 + ((a mod 4) * 16) mod 64 div 16 = a"
    and "((a mod 4) * 16 + b div 16) mod 64 mod 16 * 16 + ((b mod 16) * 4) mod 64 div 4 = b"
  using quad_bounds[OF assms] quad_arith[OF assms]
  by (simp_all only: mod_less mod_mod_trivial)

lemma a2b_full_group:
  assumes "a < 256" "b < 256" "c < 256"
  shows "a2b_base64 0 l p out (b64_groups (a # b # c # rest))
         = a2b_base64 0 0 0 (out @ [of_nat a, of_nat b, of_nat c]) (b64_groups rest)"
proof -
  note E = quad_arith_masked[OF assms]
  have "a2b_base64 0 l p out (b64_groups (a # b # c # rest))
      = a2b_base64 0 0 0
          (((out @ [of_nat (a div 4 mod 64 * 4 + ((a mod 4) * 16 + b div 16) mod 64 div 16)])
             @ [of_nat (((a mod 4) * 16 + b div 16) mod 64 mod 16 * 16
                        + ((b mod 16) * 4 + c div 64) mod 64 div 4)])
             @ [of_nat (((b mod 16) * 4 + c div 64) mod 64 mod 4 * 64 + c mod 64 mod 64)])
          (b64_groups rest)"
    unfolding b64_groups.simps append_Cons append_Nil a2b_step by simp
  also have "\<dots> = a2b_base64 0 0 0 (out @ [of_nat a, of_nat b, of_nat c]) (b64_groups rest)"
    by (simp only: E append_assoc append_Cons append_Nil)
  finally show ?thesis .
qed

lemma a2b_pad_tail2:
  "a2b_base64 2 l 0 out [CHR ''='', CHR ''=''] = Inr out"
  by simp

lemma a2b_pad_tail1:
  "a2b_base64 3 l 0 out [CHR ''=''] = Inr out"
  by simp

lemma a2b_two_group:
  assumes "a < 256" "b < 256"
  shows "a2b_base64 0 l p out (b64_groups [a, b]) = Inr (out @ [of_nat a, of_nat b])"
proof -
  note E = quad_arith_masked[OF assms assms(2)]
  have "a2b_base64 0 l p out (b64_groups [a, b])
      = a2b_base64 3 (((b mod 16) * 4) mod 64 mod 4) 0
          ((out @ [of_nat (a div 4 mod 64 * 4 + ((a mod 4) * 16 + b div 16) mod 64 div 16)])
             @ [of_nat (((a mod 4) * 16 + b div 16) mod 64 mod 16 * 16
                        + ((b mod 16) * 4) mod 64 div 4)])
          [CHR ''='']"
    unfolding b64_groups.simps append_Cons append_Nil a2b_step by simp
  also have "\<dots> = Inr (out @ [of_nat a, of_nat b])"
    by (simp only: E a2b_pad_tail1 append_assoc append_Cons append_Nil)
  finally show ?thesis .
qed

lemma a2b_one_group:
  assumes "a < 256"
  shows "a2b_base64 0 l p out (b64_groups [a]) = Inr (out @ [of_nat a])"
proof -
  note E = quad_arith_masked[OF assms assms assms]
  have "a2b_base64 0 l p out (b64_groups [a])
      = a2b_base64 2 (((a mod 4) * 16) mod 64 mod 16) 0
          (out @ [of_nat (a div 4 mod 64 * 4 + ((a mod 4) * 16) mod 64 div 16)])
          [CHR ''='', CHR ''='']"
    unfolding b64_groups.simps append_Cons append_Nil a2b_step by simp
  also have "\<dots> = Inr (out @ [of_nat a])"
    by (simp only: E a2b_pad_tail2)
  finally show ?thesis .
qed

lemma a2b_groups:
  "\<forall>x \<in> set xs. x < 256 \<Longrightarrow>
   a2b_base64 0 l p out (b64_groups xs) = Inr (out @ map of_nat xs)"
proof (induction xs arbitrary: l p out rule: b64_groups.induct)
  case (1 a b c rest)
  then have ab: "a < 256" "b < 256" "c < 256" and r: "\<forall>x \<in> set rest. x < 256"
    by simp_all
  show ?case
    unfolding a2b_full_group[OF ab] "1.IH"[OF r] by simp
next
  case (2 a b)
  then have "a < 256" "b < 256" by simp_all
  then show ?case by (simp only: a2b_two_group) simp
next
  case (3 a)
  then have "a < 256" by simp
  then show ?case by (simp only: a2b_one_group) simp
next
  case 4
  then show ?case by simp
qed

lemma b64_groups_ascii: "\<forall>c \<in> set (b64_groups xs). (of_char c :: nat) < 128"
  by (induction xs rule: b64_groups.induct) (simp_all add: b64_char_ascii)

lemma b64decode_b64encode: "b64decode (b64encode bs) = Inr bs"
proof -
  have bound: "\<forall>x \<in> set (map unat bs). x < 256"
    using unsigned_less[where 'b=8] by (auto simp: )
  have "\<not> (\<exists>c \<in> set (b64encode bs). 128 \<le> (of_char c :: nat))"
    using b64_groups_ascii[of "map unat bs"] by (auto simp: b64encode_def not_le)
  then have "b64decode (b64encode bs) = a2b_base64 0 0 0 [] (b64_groups (map unat bs))"
    by (simp add: b64decode_def b64encode_def)
  also have "\<dots> = Inr ([] @ map of_nat (map unat bs))"
    by (rule a2b_groups[OF bound])
  also have "\<dots> = Inr bs" by (simp add: comp_def map_idI)
  finally show ?thesis .
qed

section \<open>Basic facts\<close>

lemma logging_fields [simp]:
  "disk (logging lv msg w) = disk w"
  "ignore_events (logging lv msg w) = ignore_events w"
  "nodes (logging lv msg w) = nodes w"
  "last_trigger_time (logging lv msg w) = last_trigger_time w"
  "manager_stopped (logging lv msg w) = manager_stopped w"
  "log (logging lv msg w) = log w @ [(lv, msg)]"
  by (simp_all add: logging_def)

lemma map_of_write_file:
  "map_of (write_file env now d p data)
   = (map_of d)(abspath env p \<mapsto> \<lparr>content = data, mtime = seconds now\<rparr>)"
  by (simp add: write_file_def update_conv')

lemma deserialize_loop_length:
  "deserialize_loop acc S = Inr dd \<Longrightarrow> length dd = length acc + length S"
proof (induction S arbitrary: acc)
  case Nil
  then show ?case by simp
next
  case (Cons item rest)
  show ?case
  proof (cases "isinstance_int item")
    case True
    with Cons.prems have "deserialize_loop (acc @ [item]) rest = Inr dd" by simp
    from Cons.IH[OF this] show ?thesis by simp
  next
    case False
    with Cons.prems obtain s b where "item = PStr s" "b64decode s = Inr b"
      "deserialize_loop (acc @ [PBytes b]) rest = Inr dd"
      by (cases item) (auto split: sum.splits)
    from Cons.IH[OF this(3)] show ?thesis by simp
  qed
qed

lemma deserialize_delta_data_nonempty:
  "deserialize_delta_data S = Inr dd \<Longrightarrow> (dd = []) = (S = [])"
  using deserialize_loop_length[of "[]" S dd]
  by (auto simp: deserialize_delta_data_def)

lemma delta_transfer_entry_skip:
  assumes "fi_mtime fi = Some m" and "fi_is_full_file fi \<noteq> Some True"
    and "fi_delta fi = Some sd" and "sd \<noteq> []" and "deserialize_delta_data sd = Inr dd"
    and "load_signature env (disk w) file_path = Inr osig" and "osig = None \<or> osig = Some []"
  shows "delta_transfer_entry env now w file_path fi =
           (Returned,
            logging WARNING (''No signature found for '' @ file_path @ '', cannot apply delta.'')
              (w\<lparr>ignore_events :=
                   AList.update (abspath env (path_join (monitored_directory env) file_path)) now
                     (ignore_events w)\<rparr>))"
proof -
  have ne: "dd \<noteq> []" using assms(4,5) deserialize_delta_data_nonempty by blast
  have nf: "(case fi_is_full_file fi of None \<Rightarrow> False | Some b \<Rightarrow> b) = False"
    using assms(2) by (cases "fi_is_full_file fi") auto
  show ?thesis
    using assms(1,3,4,5,6,7) ne nf
    by (auto simp: delta_transfer_entry_def delta_transfer_try_def Let_def)
qed

lemma example_paths:
  "abspath example_env p = p"
  "monitored_directory example_env = ''/m''"
  "signatures_dir example_env = ''/s''"
  by (simp_all add: example_env_def)

lemma example_fields:
  "relpath example_env p start = drop (length start + 1) p"
  "sizeof_long example_env = 8"
  "zlib_compress example_env b = b"
  "zlib_decompress example_env b = Inr b"
  "json_dumps example_env msg = Inr (map (\<lambda>c. of_nat (of_char c)) (fst msg))"
  "blockchecksums example_env = example_blocks"
  "rsyncdelta example_env new_file sig = (if new_file = [] then [] else [PBytes new_file])"
  "patchstream example_env base delta = example_patch base [] delta"
  "mktemp example_env d = ''/tmp/t''"
  "os_walk example_env d dir0 = filter (\<lambda>k. take (length dir0 + 1) k = dir0 @ ''/'') (map fst d)"
  "replace_fails example_env src dst = False"
  "connect_fails example_env ip0 port = False"
  by (simp_all add: example_env_def)

lemma le_bytes_8:
  "le_bytes 8 n = [of_nat (n mod 256), of_nat (n div 256 mod 256),
     of_nat (n div 256 div 256 mod 256), of_nat (n div 256 div 256 div 256 mod 256),
     of_nat (n div 256 div 256 div 256 div 256 mod 256),
     of_nat (n div 256 div 256 div 256 div 256 div 256 mod 256),
     of_nat (n div 256 div 256 div 256 div 256 div 256 div 256 mod 256),
     of_nat (n div 256 div 256 div 256 div 256 div 256 div 256 div 256 mod 256)]"
proof -
  have "(8::nat) = Suc (Suc (Suc (Suc (Suc (Suc (Suc (Suc 0)))))))" by simp
  then show ?thesis by (simp only: le_bytes.simps)
qed

lemma pk1: "pack_L16s example_env 1 (replicate 16 1)
            = Inr ([1, 0, 0, 0, 0, 0, 0, 0] @ replicate 16 1)"
    by (simp add: pack_L16s_def le_bytes_8 example_fields)


section \<open>Serializing deltas\<close>

lemma serialize_loop_ok:
  "list_all (\<lambda>v. isinstance_int v \<or> isinstance_bytes v) D \<Longrightarrow>
   \<exists>S. serialize_loop acc D = Inr (acc @ S)
       \<and> (\<forall>acc'. deserialize_loop acc' S = Inr (acc' @ D))"
proof (induction D arbitrary: acc)
  case Nil
  then show ?case by simp
next
  case (Cons item rest)
  then have rest: "list_all (\<lambda>v. isinstance_int v \<or> isinstance_bytes v) rest"
    and item: "isinstance_int item \<or> isinstance_bytes item" by simp_all
  show ?case
  proof (cases "isinstance_int item")
    case True
    from Cons.IH[OF rest, of "acc @ [item]"] obtain S where
      S: "serialize_loop (acc @ [item]) rest = Inr ((acc @ [item]) @ S)"
         "\<forall>acc'. deserialize_loop acc' S = Inr (acc' @ rest)" by blast
    have "serialize_loop acc (item # rest) = Inr (acc @ item # S)"
      using True S(1) by simp
    moreover have "\<forall>acc'. deserialize_loop acc' (item # S) = Inr (acc' @ item # rest)"
      using True S(2) by simp
    ultimately show ?thesis by blast
  next
    case False
    with item obtain b where b: "item = PBytes b" by (cases item) simp_all
    from Cons.IH[OF rest, of "acc @ [PStr (b64encode b)]"] obtain S where
      S: "serialize_loop (acc @ [PStr (b64encode b)]) rest = Inr ((acc @ [PStr (b64encode b)]) @ S)"
         "\<forall>acc'. deserialize_loop acc' S = Inr (acc' @ rest)" by blast
    have "serialize_loop acc (item # rest) = Inr (acc @ PStr (b64encode b) # S)"
      using b S(1) by simp
    moreover have "\<forall>acc'. deserialize_loop acc' (PStr (b64encode b) # S) = Inr (acc' @ item # rest)"
      using b S(2) by (simp add: b64decode_b64encode)
    ultimately show ?thesis by blast
  qed
qed

lemma serialize_loop_error:
  "\<not> list_all (\<lambda>v. isinstance_int v \<or> isinstance_bytes v) D \<Longrightarrow>
   serialize_loop acc D = Inl ValueError"
proof (induction D arbitrary: acc)
  case Nil
  then show ?case by simp
next
  case (Cons item rest)
  show ?case
  proof (cases "isinstance_int item \<or> isinstance_bytes item")
    case True
    with Cons.prems have "\<not> list_all (\<lambda>v. isinstance_int v \<or> isinstance_bytes v) rest" by simp
    from Cons.IH[OF this] True show ?thesis by (cases item) simp_all
  next
    case False
    then show ?thesis by (cases item) simp_all
  qed
qed

lemma deserialize_loop_error:
  "\<not> list_all (\<lambda>v. isinstance_int v \<or> isinstance_str v) S \<Longrightarrow>
   \<exists>e. deserialize_loop acc S = Inl e"
proof (induction S arbitrary: acc)
  case Nil
  then show ?case by simp
next
  case (Cons item rest)
  show ?case
  proof (cases "isinstance_int item \<or> isinstance_str item")
    case True
    with Cons.prems have "\<not> list_all (\<lambda>v. isinstance_int v \<or> isinstance_str v) rest" by simp
    from Cons.IH[OF this] True show ?thesis
      by (cases item) (simp_all split: sum.splits)
  next
    case False
    then show ?thesis by (cases item) simp_all
  qed
qed

text \<open>Claim C2. A delta whose elements are all integers (instances of \<open>int\<close>, which
  includes Python's booleans) or byte chunks is serialized without error, and deserializing
  the result gives the delta back. A delta with any other element makes
  \<open>serialize_delta_data\<close> raise \<open>ValueError\<close>, and a serialized list with an element that is
  neither an integer nor a string makes \<open>deserialize_delta_data\<close> raise.\<close>

theorem serialize_deserialize_roundtrip:
  "(list_all (\<lambda>v. isinstance_int v \<or> isinstance_bytes v) D \<longrightarrow>
      (\<exists>S. serialize_delta_data D = Inr S \<and> deserialize_delta_data S = Inr D))
   \<and> (\<not> list_all (\<lambda>v. isinstance_int v \<or> isinstance_bytes v) D \<longrightarrow>
      serialize_delta_data D = Inl ValueError)
   \<and> (\<not> list_all (\<lambda>v. isinstance_int v \<or> isinstance_str v) S' \<longrightarrow>
      (\<exists>e. deserialize_delta_data S' = Inl e))"
proof (intro conjI impI)
  assume "list_all (\<lambda>v. isinstance_int v \<or> isinstance_bytes v) D"
  from serialize_loop_ok[OF this, of "[]"]
  show "\<exists>S. serialize_delta_data D = Inr S \<and> deserialize_delta_data S = Inr D"
    by (auto simp: serialize_delta_data_def deserialize_delta_data_def)
next
  assume "\<not> list_all (\<lambda>v. isinstance_int v \<or> isinstance_bytes v) D"
  then show "serialize_delta_data D = Inl ValueError"
    by (simp add: serialize_delta_data_def serialize_loop_error)
next
  assume "\<not> list_all (\<lambda>v. isinstance_int v \<or> isinstance_str v) S'"
  then show "\<exists>e. deserialize_delta_data S' = Inl e"
    by (simp add: deserialize_delta_data_def deserialize_loop_error)
qed

theorem serialize_deserialize_roundtrip_witness:
  "list_all (\<lambda>v. isinstance_int v \<or> isinstance_bytes v) [PInt 3, PBytes [104, 105], PInt 0]
   \<and> (\<exists>S. serialize_delta_data [PInt 3, PBytes [104, 105], PInt 0] = Inr S
          \<and> deserialize_delta_data S = Inr [PInt 3, PBytes [104, 105], PInt 0])
   \<and> \<not> list_all (\<lambda>v. isinstance_int v \<or> isinstance_bytes v) [PInt 3, PStr ''aGk='']
   \<and> serialize_delta_data [PInt 3, PStr ''aGk=''] = Inl ValueError
   \<and> \<not> list_all (\<lambda>v. isinstance_int v \<or> isinstance_str v) [PInt 3, PNone]
   \<and> (\<exists>e. deserialize_delta_data [PInt 3, PNone] = Inl e)"
  using serialize_deserialize_roundtrip[of "[PInt 3, PBytes [104, 105], PInt 0]" "[PInt 3, PNone]"]
        serialize_deserialize_roundtrip[of "[PInt 3, PStr ''aGk='']" "[PInt 3, PNone]"]
  by simp

section \<open>Signatures on disk\<close>

lemma length_le_bytes: "length (le_bytes k n) = k"
  by (induction k arbitrary: n) simp_all

lemma le_nat_le_bytes: "n < 256 ^ k \<Longrightarrow> le_nat (le_bytes k n) = n"
proof (induction k arbitrary: n)
  case 0
  then show ?case by simp
next
  case (Suc k)
  then have "n div 256 < 256 ^ k"
    by (simp add: less_mult_imp_div_less mult.commute)
  then have "le_nat (le_bytes k (n div 256)) = n div 256" by (rule Suc.IH)
  moreover have "unat (of_nat (n mod 256) :: byte) = n mod 256"
    by (simp add: unat_of_nat)
  ultimately show ?case by simp
qed

lemma be_nat_be_bytes: "n < 256 ^ k \<Longrightarrow> be_nat (be_bytes k n) = n"
  by (simp add: be_nat_def be_bytes_def le_nat_le_bytes)

lemma length_be_bytes: "length (be_bytes k n) = k"
  by (simp add: be_bytes_def length_le_bytes)

lemma pack_L16s_packable:
  assumes "packable env (weak, strong)"
  shows "pack_L16s env weak strong = Inr (le_bytes (sizeof_long env) (nat weak) @ strong)"
  using assms by (simp add: pack_L16s_def packable_def)

lemma unpack_L16s_packed:
  assumes "packable env (weak, strong)"
  shows "unpack_L16s env (le_bytes (sizeof_long env) (nat weak) @ strong) = Inr (weak, strong)"
proof -
  from assms have w: "0 \<le> weak" "weak < 2 ^ (8 * sizeof_long env)" and s: "length strong = 16"
    by (simp_all add: packable_def)
  have "nat weak < nat (2 ^ (8 * sizeof_long env))" using w by linarith
  also have "nat (2 ^ (8 * sizeof_long env)) = (256::nat) ^ sizeof_long env"
    by (simp add: power_mult nat_power_eq)
  finally have "le_nat (le_bytes (sizeof_long env) (nat weak)) = nat weak"
    by (rule le_nat_le_bytes)
  then show ?thesis using w s
    by (simp add: unpack_L16s_def calcsize_def length_le_bytes)
qed

lemma flatten_signature_packable:
  "list_all (packable env) sig \<Longrightarrow>
   flatten_signature env acc sig =
     Inr (acc @ concat (map (\<lambda>(weak, strong). le_bytes (sizeof_long env) (nat weak) @ strong) sig))"
proof (induction sig arbitrary: acc)
  case Nil
  then show ?case by simp
next
  case (Cons entry rest)
  obtain weak strong where e: "entry = (weak, strong)" by (cases entry)
  with Cons.prems have p: "packable env (weak, strong)" and r: "list_all (packable env) rest"
    by simp_all
  show ?case using Cons.IH[OF r] by (simp add: e pack_L16s_packable[OF p])
qed

lemma unpack_records_packed:
  "list_all (packable env) sig \<Longrightarrow>
   unpack_records env
     (concat (map (\<lambda>(weak, strong). le_bytes (sizeof_long env) (nat weak) @ strong) sig)) acc
   = Inr (acc @ sig)"
proof (induction sig arbitrary: acc)
  case Nil
  then show ?case by (simp add: unpack_records.simps)
next
  case (Cons entry rest)
  obtain weak strong where e: "entry = (weak, strong)" by (cases entry)
  with Cons.prems have p: "packable env (weak, strong)" and r: "list_all (packable env) rest"
    by simp_all
  let ?rec = "le_bytes (sizeof_long env) (nat weak) @ strong"
  let ?tail = "concat (map (\<lambda>(weak, strong). le_bytes (sizeof_long env) (nat weak) @ strong) rest)"
  have len: "length ?rec = calcsize env"
    using p by (simp add: calcsize_def length_le_bytes packable_def)
  have ne: "?rec @ ?tail \<noteq> []" using len by (auto simp: calcsize_def)
  have tk: "take (calcsize env) (?rec @ ?tail) = ?rec" using len by simp
  have dr: "drop (calcsize env) (?rec @ ?tail) = ?tail" using len by simp
  have "unpack_records env (?rec @ ?tail) acc = unpack_records env ?tail (acc @ [(weak, strong)])"
    by (subst unpack_records.simps) (simp only: ne tk dr unpack_L16s_packed[OF p] if_False sum.case)
  also have "\<dots> = Inr ((acc @ [(weak, strong)]) @ rest)" by (rule Cons.IH[OF r])
  finally show ?case by (simp add: e)
qed

text \<open>Claim C3. For a signature whose weak checksums fit the packed integer and whose
  strong checksums have sixteen bytes, \<open>save_signature\<close> returns (and writes to the signature
  file of the relative path) compressed bytes from which \<open>parse_signature\<close> gives the same
  signature back, for any relative path. \<open>zlib\<close> is taken to decompress what it
  compressed.\<close>

theorem parse_save_signature:
  assumes "\<forall>b. zlib_decompress env (zlib_compress env b) = Inr b"
    and "list_all (packable env) sig"
  shows "\<exists>d' compressed.
           save_signature env now d sig relative_path = Inr (d', compressed)
           \<and> read_file env d' (get_signature_file_path env relative_path) = Inr compressed
           \<and> parse_signature env compressed = Inr sig"
  using assms
  by (simp add: save_signature_def flatten_signature_packable parse_signature_def
      unpack_records_packed Let_def read_file_def write_file_def update_conv')

theorem parse_save_signature_witness:
  "(\<forall>b. zlib_decompress example_env (zlib_compress example_env b) = Inr b)
   \<and> list_all (packable example_env) [(5, replicate 16 1), (2 ^ 64 - 1, replicate 16 255)]
   \<and> (\<exists>d' compressed.
         save_signature example_env 0 [] [(5, replicate 16 1), (2 ^ 64 - 1, replicate 16 255)]
           ''sub/a.txt'' = Inr (d', compressed)
         \<and> read_file example_env d' (get_signature_file_path example_env ''sub/a.txt'')
             = Inr compressed
         \<and> parse_signature example_env compressed
             = Inr [(5, replicate 16 1), (2 ^ 64 - 1, replicate 16 255)])"
proof -
  have z: "\<forall>b. zlib_decompress example_env (zlib_compress example_env b) = Inr b"
    by (simp add: example_env_def)
  have p: "list_all (packable example_env) [(5, replicate 16 1), (2 ^ 64 - 1, replicate 16 255)]"
    by (simp add: packable_def example_env_def)
  from parse_save_signature[OF z p, of 0 "[]" "''sub/a.txt''"] z p show ?thesis by blast
qed

section \<open>The framed channel\<close>

lemma fill_buffer_enough:
  "\<forall>c \<in> set chunks. c \<noteq> [] \<Longrightarrow> need \<le> length (buf @ concat chunks) \<Longrightarrow>
   \<exists>buf' rest. fill_buffer True need buf chunks = (None, buf', rest)
      \<and> buf' @ concat rest = buf @ concat chunks \<and> need \<le> length buf'
      \<and> (\<forall>c \<in> set rest. c \<noteq> [])"
proof (induction chunks arbitrary: buf)
  case Nil
  then show ?case by simp
next
  case (Cons data rest)
  show ?case
  proof (cases "length buf < need")
    case False
    with Cons.prems show ?thesis by simp
  next
    case True
    from Cons.prems have ne: "data \<noteq> []" and r: "\<forall>c \<in> set rest. c \<noteq> []"
      and len: "need \<le> length ((buf @ data) @ concat rest)" by simp_all
    from Cons.IH[OF r len] True ne show ?thesis by simp
  qed
qed

lemma prefix_take:
  assumes "a @ b = c @ d" "length c \<le> length a"
  shows "take (length c) a = c" and "drop (length c) a @ b = d"
proof -
  from assms(2) have "take (length c) a = take (length c) (a @ b)" by simp
  also have "\<dots> = c" by (simp add: assms(1))
  finally show "take (length c) a = c" .
  from assms(2) have "drop (length c) a @ b = drop (length c) (a @ b)" by simp
  also have "\<dots> = d" by (simp add: assms(1))
  finally show "drop (length c) a @ b = d" .
qed

lemma unpack_Q_be_bytes: "n < 2 ^ 64 \<Longrightarrow> unpack_Q (be_bytes 8 n) = Inr n"
proof -
  assume "n < 2 ^ 64"
  then have "n < 256 ^ 8" by simp
  then show ?thesis by (simp add: unpack_Q_def length_be_bytes be_nat_be_bytes)
qed

lemma encode_message_frame:
  assumes "encode_message env t p = Inr frame"
  obtains b where "json_dumps env (t, p) = Inr b"
    and "length (zlib_compress env b) < 2 ^ 64"
    and "frame = be_bytes 8 (length (zlib_compress env b)) @ zlib_compress env b"
  using assms
  by (auto simp: encode_message_def pack_Q_def Let_def split: sum.splits if_splits)

lemma receive_frame_encoded:
  assumes zlib: "\<forall>b. zlib_decompress env (zlib_compress env b) = Inr b"
    and enc: "encode_message env t p = Inr frame"
    and json: "\<forall>b. json_dumps env (t, p) = Inr b \<longrightarrow> json_loads env b = Inr m"
    and ne: "\<forall>c \<in> set chunks. c \<noteq> []"
    and stream: "buf @ concat chunks = frame @ tail"
  shows "\<exists>buf' rest. receive_frame env True buf chunks = (Inr m, buf', rest)
           \<and> buf' @ concat rest = tail \<and> (\<forall>c \<in> set rest. c \<noteq> [])"
proof -
  from enc obtain b where b: "json_dumps env (t, p) = Inr b"
    and len: "length (zlib_compress env b) < 2 ^ 64"
    and frame: "frame = be_bytes 8 (length (zlib_compress env b)) @ zlib_compress env b"
    by (rule encode_message_frame)
  let ?c = "zlib_compress env b"
  let ?hdr = "be_bytes 8 (length ?c)"
  have s1: "buf @ concat chunks = ?hdr @ (?c @ tail)" using stream frame by simp
  have "8 \<le> length (buf @ concat chunks)" by (simp add: s1 length_be_bytes)
  from fill_buffer_enough[OF ne this] obtain buf1 r1 where
    f1: "fill_buffer True 8 buf chunks = (None, buf1, r1)"
    and e1: "buf1 @ concat r1 = buf @ concat chunks" and l1: "8 \<le> length buf1"
    and n1: "\<forall>c \<in> set r1. c \<noteq> []" by blast
  have e1': "buf1 @ concat r1 = ?hdr @ (?c @ tail)" using e1 s1 by simp
  have l1': "length ?hdr \<le> length buf1" using l1 by (simp add: length_be_bytes)
  have tk1: "take 8 buf1 = ?hdr" and dr1: "drop 8 buf1 @ concat r1 = ?c @ tail"
    using prefix_take[OF e1' l1'] by (simp_all add: length_be_bytes)
  have "length ?c \<le> length (drop 8 buf1 @ concat r1)" by (simp only: dr1) simp
  from fill_buffer_enough[OF n1 this] obtain buf2 r2 where
    f2: "fill_buffer True (length ?c) (drop 8 buf1) r1 = (None, buf2, r2)"
    and e2: "buf2 @ concat r2 = drop 8 buf1 @ concat r1" and l2: "length ?c \<le> length buf2"
    and n2: "\<forall>c \<in> set r2. c \<noteq> []" by blast
  have e2': "buf2 @ concat r2 = ?c @ tail" using e2 dr1 by simp
  have tk2: "take (length ?c) buf2 = ?c" and dr2: "drop (length ?c) buf2 @ concat r2 = tail"
    using prefix_take[OF e2' l2] by simp_all
  have "receive_frame env True buf chunks = (Inr m, drop (length ?c) buf2, r2)"
    using zlib json b
    by (simp add: receive_frame_def f1 tk1 unpack_Q_be_bytes[OF len] f2 tk2 Let_def)
  with dr2 n2 show ?thesis by blast
qed

lemma send_message_Returned:
  assumes "send_message env (w, n) t p = (Returned, w', n')"
  shows "\<exists>frame. encode_message env t p = Inr frame
           \<and> n' = n\<lparr>wire_out := wire_out n @ [frame]\<rparr> \<and> socket_open n"
  using assms
  by (auto simp: send_message_def sendall_def split: sum.splits if_splits)

lemma send_messages_Returned:
  "send_messages env (w, a) msgs = (Returned, w', a') \<Longrightarrow>
   \<exists>frames. wire_out a' = wire_out a @ frames
      \<and> list_all2 (\<lambda>m frame. encode_message env (fst m) (snd m) = Inr frame) msgs frames"
proof (induction msgs arbitrary: w a)
  case Nil
  then show ?case by simp
next
  case (Cons m rest)
  obtain t p where m: "m = (t, p)" by (cases m)
  from Cons.prems obtain w1 a1 where
    s1: "send_message env (w, a) t p = (Returned, w1, a1)"
    and s2: "send_messages env (w1, a1) rest = (Returned, w', a')"
    by (auto simp: m split: prod.splits status.splits)
  from send_message_Returned[OF s1] obtain frame where
    f: "encode_message env t p = Inr frame" "wire_out a1 = wire_out a @ [frame]" by auto
  from Cons.IH[OF s2] obtain frames where
    fs: "wire_out a' = wire_out a1 @ frames"
        "list_all2 (\<lambda>m frame. encode_message env (fst m) (snd m) = Inr frame) rest frames"
    by blast
  have "wire_out a' = wire_out a @ (frame # frames)" using f(2) fs(1) by simp
  moreover have "list_all2 (\<lambda>m frame. encode_message env (fst m) (snd m) = Inr frame)
                   (m # rest) (frame # frames)"
    using f(1) fs(2) by (simp add: m)
  ultimately show ?case by blast
qed

lemma receive_messages_encoded:
  assumes zlib: "\<forall>b. zlib_decompress env (zlib_compress env b) = Inr b"
  shows "list_all2 (\<lambda>m frame. encode_message env (fst m) (snd m) = Inr frame) msgs frames \<Longrightarrow>
   \<forall>m \<in> set msgs. \<forall>j. json_dumps env m = Inr j \<longrightarrow> json_loads env j = Inr m \<Longrightarrow>
   socket_open b \<Longrightarrow> \<forall>c \<in> set (wire_in b). c \<noteq> [] \<Longrightarrow>
   buffer b @ concat (wire_in b) = concat frames @ extra \<Longrightarrow>
   \<exists>b'. receive_messages env (length msgs) (v, b) = (msgs, v, b')
        \<and> buffer b' @ concat (wire_in b') = extra \<and> socket_open b'
        \<and> (\<forall>c \<in> set (wire_in b'). c \<noteq> [])"
proof (induction msgs frames arbitrary: b rule: list_all2_induct)
  case Nil
  then show ?case by simp
next
  case (Cons m msgs frame frames)
  obtain t p where m: "m = (t, p)" by (cases m)
  have enc: "encode_message env t p = Inr frame" using Cons.hyps(1) by (simp add: m)
  have json: "\<forall>j. json_dumps env (t, p) = Inr j \<longrightarrow> json_loads env j = Inr (t, p)"
    using Cons.prems(1) by (simp add: m)
  have stream: "buffer b @ concat (wire_in b) = frame @ (concat frames @ extra)"
    using Cons.prems(4) by simp
  from receive_frame_encoded[OF zlib enc json Cons.prems(3) stream] obtain buf' rest where
    rf: "receive_frame env True (buffer b) (wire_in b) = (Inr (t, p), buf', rest)"
    and e: "buf' @ concat rest = concat frames @ extra" and ne: "\<forall>c \<in> set rest. c \<noteq> []"
    by blast
  let ?b1 = "b\<lparr>buffer := buf', wire_in := rest\<rparr>"
  have r1: "receive_message env (v, b) = (Some m, v, ?b1)"
    using rf Cons.prems(2) by (simp add: receive_message_def m)
  have "\<forall>m \<in> set msgs. \<forall>j. json_dumps env m = Inr j \<longrightarrow> json_loads env j = Inr m"
    using Cons.prems(1) by simp
  from Cons.IH[OF this, of ?b1] Cons.prems(2) e ne obtain b' where
    b': "receive_messages env (length msgs) (v, ?b1) = (msgs, v, b')"
        "buffer b' @ concat (wire_in b') = extra" "socket_open b'"
        "\<forall>c \<in> set (wire_in b'). c \<noteq> []"
    by auto
  show ?case using r1 b' by simp
qed

text \<open>Claim C4. When a list of messages has been sent with \<open>send_message\<close>, each frame on
  the wire is the eight-byte big-endian length followed by the compressed JSON bytes of the
  message. When these frames reach the receiver cut into arbitrary non-empty pieces (frames
  may share a piece, and bytes of a later frame may follow), as many calls of
  \<open>receive_message\<close> as messages were sent return exactly those messages in order, and the
  bytes that follow stay in the buffer and on the socket for the next call. \<open>zlib\<close> and
  \<open>json\<close> are taken to invert themselves on what was sent.\<close>

theorem framed_channel_roundtrip:
  assumes zlib: "\<forall>b. zlib_decompress env (zlib_compress env b) = Inr b"
    and json: "\<forall>m \<in> set msgs. \<forall>j. json_dumps env m = Inr j \<longrightarrow> json_loads env j = Inr m"
    and sent: "send_messages env (w, a) msgs = (Returned, w', a')"
    and sock: "socket_open b"
    and chunks: "\<forall>c \<in> set (wire_in b). c \<noteq> []"
    and wire: "buffer b @ concat (wire_in b)
               = concat (drop (length (wire_out a)) (wire_out a')) @ extra"
  shows "list_all2
           (\<lambda>m frame. \<exists>j. json_dumps env m = Inr j
              \<and> frame = be_bytes 8 (length (zlib_compress env j)) @ zlib_compress env j)
           msgs (drop (length (wire_out a)) (wire_out a'))
         \<and> (\<exists>b'. receive_messages env (length msgs) (v, b) = (msgs, v, b')
               \<and> buffer b' @ concat (wire_in b') = extra \<and> socket_open b')"
proof -
  from send_messages_Returned[OF sent] obtain frames where
    fs: "wire_out a' = wire_out a @ frames"
        "list_all2 (\<lambda>m frame. encode_message env (fst m) (snd m) = Inr frame) msgs frames"
    by blast
  have d: "drop (length (wire_out a)) (wire_out a') = frames" using fs(1) by simp
  have "list_all2
           (\<lambda>m frame. \<exists>j. json_dumps env m = Inr j
              \<and> frame = be_bytes 8 (length (zlib_compress env j)) @ zlib_compress env j)
           msgs frames"
    using fs(2)
  proof (rule list_all2_mono)
    fix m frame assume "encode_message env (fst m) (snd m) = Inr frame"
    then show "\<exists>j. json_dumps env m = Inr j
              \<and> frame = be_bytes 8 (length (zlib_compress env j)) @ zlib_compress env j"
      by (rule encode_message_frame) auto
  qed
  moreover from receive_messages_encoded[OF zlib fs(2) json sock chunks, of extra v] wire d
  have "\<exists>b'. receive_messages env (length msgs) (v, b) = (msgs, v, b')
               \<and> buffer b' @ concat (wire_in b') = extra \<and> socket_open b'"
    by auto
  ultimately show ?thesis by (simp add: d)
qed


lemma byte_of_char: "char_of (unat (of_nat (of_char c) :: byte)) = c"
proof -
  have "(of_char c :: nat) < 256" by (rule nat_of_char_less_256)
  then have "unat (of_nat (of_char c) :: byte) = of_char c"
    by (simp add: unat_of_nat)
  then show ?thesis by simp
qed

lemma example_codec:
  "json_dumps example_env (t, p) = Inr j \<Longrightarrow>
   json_loads example_env j = Inr (t, DirectoryState [])"
  by (auto simp: example_env_def comp_def byte_of_char map_idI)

lemma example_zlib: "\<forall>b. zlib_decompress example_env (zlib_compress example_env b) = Inr b"
  by (simp add: example_env_def)

theorem framed_channel_roundtrip_witness:
  "(\<forall>b. zlib_decompress example_env (zlib_compress example_env b) = Inr b)
   \<and> fst (send_messages example_env (example_world, Node_init ''10.0.0.2'' 6000 [])
              [(''A'', DirectoryState []), (''BC'', DirectoryState [])]) = Returned
   \<and> (\<exists>b'. receive_messages example_env 2
              (example_world, Node_init ''10.0.0.1'' 6000
                    [[0, 0, 0], [0, 0, 0, 0, 1, 65, 0, 0], [0, 0, 0, 0, 0, 2, 66], [67, 9]])
            = ([(''A'', DirectoryState []), (''BC'', DirectoryState [])], example_world, b')
          \<and> buffer b' @ concat (wire_in b') = [9] \<and> socket_open b')"
proof -
  let ?msgs = "[(''A'', DirectoryState []), (''BC'', DirectoryState [])]"
  let ?a = "Node_init ''10.0.0.2'' 6000 []"
  let ?b = "Node_init ''10.0.0.1'' 6000
              [[0, 0, 0], [0, 0, 0, 0, 1, 65, 0, 0], [0, 0, 0, 0, 0, 2, 66], [67, 9]]"
  let ?r = "send_messages example_env (example_world, ?a) ?msgs"
  note z = example_zlib
  have j: "\<forall>m \<in> set ?msgs.
             \<forall>j. json_dumps example_env m = Inr j \<longrightarrow> json_loads example_env j = Inr m"
    using example_codec by auto
  have e1: "encode_message example_env ''A'' (DirectoryState []) = Inr [0, 0, 0, 0, 0, 0, 0, 1, 65]"
    and e2: "encode_message example_env ''BC'' (DirectoryState [])
             = Inr [0, 0, 0, 0, 0, 0, 0, 2, 66, 67]"
    by (simp_all add: encode_message_def pack_Q_def be_bytes_def le_bytes_8 example_env_def)
  have out: "wire_out (snd (snd ?r)) = [[0, 0, 0, 0, 0, 0, 0, 1, 65], [0, 0, 0, 0, 0, 0, 0, 2, 66, 67]]"
    and st: "fst ?r = Returned"
    by (simp_all add: send_message_def e1 e2 sendall_def Node_init_def)
  have sent: "?r = (Returned, fst (snd ?r), snd (snd ?r))"
    using st by (metis prod.collapse)
  have sock: "socket_open ?b" by (simp add: Node_init_def)
  have chunks: "\<forall>c \<in> set (wire_in ?b). c \<noteq> []" by (simp add: Node_init_def)
  have wire: "buffer ?b @ concat (wire_in ?b)
              = concat (drop (length (wire_out ?a)) (wire_out (snd (snd ?r)))) @ [9]"
    unfolding out by (simp add: Node_init_def)
  have len: "length ?msgs = 2" by simp
  note r = framed_channel_roundtrip[OF z j sent sock chunks wire, of example_world, THEN conjunct2,
      unfolded len]
  show ?thesis using z st r by blast
qed

section \<open>Applying a delta\<close>

lemma apply_delta_cases:
  assumes fresh: "map_of d (abspath env (mktemp env d)) = None"
    and other: "abspath env (mktemp env d) \<noteq> abspath env base"
  shows "(\<exists>e. apply_delta env now d base delta = (Inl e, snd (apply_delta env now d base delta))
            \<and> map_of (snd (apply_delta env now d base delta)) = map_of d)
         \<or> (\<exists>f. map_of d (abspath env base) = Some f
              \<and> snd (patchstream env (content f) delta) = None
              \<and> fst (apply_delta env now d base delta) = Inr ()
              \<and> map_of (snd (apply_delta env now d base delta))
                  = (map_of d)(abspath env base \<mapsto>
                       \<lparr>content = fst (patchstream env (content f) delta),
                        mtime = seconds now\<rparr>))"
proof -
  let ?K = "abspath env (mktemp env d)"
  let ?B = "abspath env base"
  have drop_tmp: "\<And>m v. (map_of d)(?K := None) = map_of d"
    using fresh by (auto simp: fun_eq_iff)
  show ?thesis
  proof (cases "map_of d ?B")
    case None
    then show ?thesis using other fresh
      by (auto simp: apply_delta_def Let_def read_file_def path_exists_def map_of_write_file
          delete_conv' fun_eq_iff)
  next
    case (Some f)
    obtain written raised where ps: "patchstream env (content f) delta = (written, raised)"
      by (cases "patchstream env (content f) delta")
    show ?thesis
    proof (cases raised)
      case (Some e)
      then show ?thesis using \<open>map_of d ?B = Some f\<close> other fresh ps
        by (auto simp: apply_delta_def Let_def read_file_def path_exists_def map_of_write_file
            delete_conv' fun_eq_iff)
    next
      case None
      show ?thesis
      proof (cases "replace_fails env (mktemp env d) base")
        case True
        then show ?thesis using \<open>map_of d ?B = Some f\<close> other fresh ps None
          by (auto simp: apply_delta_def Let_def read_file_def path_exists_def map_of_write_file
              delete_conv' fun_eq_iff os_replace_def)
      next
        case False
        then show ?thesis using \<open>map_of d ?B = Some f\<close> other fresh ps None
          by (auto simp: apply_delta_def Let_def read_file_def path_exists_def map_of_write_file
              delete_conv' update_conv' fun_eq_iff os_replace_def)
      qed
    qed
  qed
qed

text \<open>Claim C5. The temporary file is a new file, different from the base file. Whatever
  \<open>apply_delta\<close> does, the temporary file is not on the disk afterwards. If it raises (the base
  file cannot be opened, \<open>patchstream\<close> raises, or \<open>os.replace\<close> fails), the base file is as it
  was, content and modification time, and so is every other file. If it returns, the base file
  holds what \<open>patchstream\<close> wrote from the old base content and the delta.\<close>

theorem apply_delta_atomic:
  assumes "\<not> path_exists env d (mktemp env d)"
    and "abspath env (mktemp env d) \<noteq> abspath env base"
  shows "\<not> path_exists env (snd (apply_delta env now d base delta)) (mktemp env d)
     \<and> (\<forall>e. fst (apply_delta env now d base delta) = Inl e \<longrightarrow>
          stat env (snd (apply_delta env now d base delta)) base = stat env d base
          \<and> map_of (snd (apply_delta env now d base delta)) = map_of d)
     \<and> (fst (apply_delta env now d base delta) = Inr () \<longrightarrow>
          (\<exists>b. read_file env d base = Inr b \<and> snd (patchstream env b delta) = None
             \<and> read_file env (snd (apply_delta env now d base delta)) base
                 = Inr (fst (patchstream env b delta))))"
proof -
  from assms(1) have fresh: "map_of d (abspath env (mktemp env d)) = None"
    by (simp add: path_exists_def)
  from apply_delta_cases[OF fresh assms(2), of now delta]
  show ?thesis
  proof (elim disjE exE conjE)
    fix e
    assume r: "apply_delta env now d base delta = (Inl e, snd (apply_delta env now d base delta))"
      and m: "map_of (snd (apply_delta env now d base delta)) = map_of d"
    have "fst (apply_delta env now d base delta) = Inl e" by (subst r) simp
    then show ?thesis using m fresh by (simp add: path_exists_def stat_def)
  next
    fix f
    assume "map_of d (abspath env base) = Some f"
      "snd (patchstream env (content f) delta) = None"
      "fst (apply_delta env now d base delta) = Inr ()"
      "map_of (snd (apply_delta env now d base delta))
         = (map_of d)(abspath env base \<mapsto>
              \<lparr>content = fst (patchstream env (content f) delta), mtime = seconds now\<rparr>)"
    then show ?thesis using fresh assms(2)
      by (simp add: path_exists_def read_file_def)
  qed
qed

theorem apply_delta_atomic_witness:
  "\<not> path_exists example_env [(''/m/a'', \<lparr>content = [1, 2, 3, 4, 5], mtime = 1\<rparr>)]
       (mktemp example_env [(''/m/a'', \<lparr>content = [1, 2, 3, 4, 5], mtime = 1\<rparr>)])
   \<and> abspath example_env
        (mktemp example_env [(''/m/a'', \<lparr>content = [1, 2, 3, 4, 5], mtime = 1\<rparr>)])
       \<noteq> abspath example_env ''/m/a''
   \<and> fst (apply_delta example_env 5 [(''/m/a'', \<lparr>content = [1, 2, 3, 4, 5], mtime = 1\<rparr>)]
              ''/m/a'' [PBytes [7], PNone]) = Inl TypeError
   \<and> stat example_env
         (snd (apply_delta example_env 5 [(''/m/a'', \<lparr>content = [1, 2, 3, 4, 5], mtime = 1\<rparr>)]
                 ''/m/a'' [PBytes [7], PNone])) ''/m/a''
       = Inr \<lparr>content = [1, 2, 3, 4, 5], mtime = 1\<rparr>
   \<and> \<not> path_exists example_env
         (snd (apply_delta example_env 5 [(''/m/a'', \<lparr>content = [1, 2, 3, 4, 5], mtime = 1\<rparr>)]
                 ''/m/a'' [PBytes [7], PNone])) ''/tmp/t''
   \<and> fst (apply_delta example_env 5 [(''/m/a'', \<lparr>content = [1, 2, 3, 4, 5], mtime = 1\<rparr>)]
              ''/m/a'' [PInt 0, PBytes [9]]) = Inr ()
   \<and> read_file example_env
         (snd (apply_delta example_env 5 [(''/m/a'', \<lparr>content = [1, 2, 3, 4, 5], mtime = 1\<rparr>)]
                 ''/m/a'' [PInt 0, PBytes [9]])) ''/m/a''
       = Inr [1, 2, 3, 4, 9]"
proof -
  let ?d = "[(''/m/a'', \<lparr>content = [1, 2, 3, 4, 5], mtime = 1::real\<rparr>)]"
  have h1: "\<not> path_exists example_env ?d (mktemp example_env ?d)"
    by (simp add: path_exists_def example_env_def)
  have h2: "abspath example_env (mktemp example_env ?d) \<noteq> abspath example_env ''/m/a''"
    by (simp add: example_env_def)
  have tmp: "mktemp example_env ?d = ''/tmp/t''" by (simp add: example_env_def)
  have bad: "fst (apply_delta example_env 5 ?d ''/m/a'' [PBytes [7], PNone]) = Inl TypeError"
    by (simp add: apply_delta_def read_file_def write_file_def path_exists_def example_env_def)
  have good: "fst (apply_delta example_env 5 ?d ''/m/a'' [PInt 0, PBytes [9]]) = Inr ()"
    by (simp add: apply_delta_def read_file_def write_file_def path_exists_def os_replace_def
        example_env_def)
  have base: "read_file example_env ?d ''/m/a'' = Inr [1, 2, 3, 4, 5]"
    and st: "stat example_env ?d ''/m/a'' = Inr \<lparr>content = [1, 2, 3, 4, 5], mtime = 1\<rparr>"
    by (simp_all add: read_file_def stat_def example_env_def)
  have patch: "patchstream example_env [1, 2, 3, 4, 5] [PInt 0, PBytes [9]] = ([1, 2, 3, 4, 9], None)"
    by (simp add: example_env_def)
  note A = apply_delta_atomic[OF h1 h2, of 5 "[PBytes [7], PNone]"]
  note B = apply_delta_atomic[OF h1 h2, of 5 "[PInt 0, PBytes [9]]"]
  from A bad st have a: "stat example_env
         (snd (apply_delta example_env 5 ?d ''/m/a'' [PBytes [7], PNone])) ''/m/a''
       = Inr \<lparr>content = [1, 2, 3, 4, 5], mtime = 1\<rparr>"
    by simp
  have a2: "\<not> path_exists example_env
         (snd (apply_delta example_env 5 ?d ''/m/a'' [PBytes [7], PNone])) ''/tmp/t''"
    using A[THEN conjunct1, unfolded tmp] .
  from B good base patch have b: "read_file example_env
         (snd (apply_delta example_env 5 ?d ''/m/a'' [PInt 0, PBytes [9]])) ''/m/a''
       = Inr [1, 2, 3, 4, 9]"
    by auto
  show ?thesis using h1 h2 bad a a2 good b by blast
qed

section \<open>The echo guard\<close>

text \<open>Claim C6. A directory event is always ignored and changes nothing. For a file event
  whose absolute source path has an entry in the echo-guard table (a clock reading, which is
  positive): if the event comes less than 500 ms after the entry, \<open>should_ignore\<close> returns
  true and the table is as it was; if the entry is 500 ms old or older, \<open>should_ignore\<close>
  returns false and the entry, and no other, is gone from the table. Without an entry the
  event is not ignored and nothing changes.\<close>

theorem should_ignore_echo_guard:
  "(is_directory ev \<longrightarrow> should_ignore env event_time w ev = (True, w))
   \<and> (\<not> is_directory ev
        \<and> map_of (ignore_events w) (abspath env (src_path ev)) = Some ignore_time
        \<and> 0 < ignore_time \<and> event_time < ignore_time + 500000000 \<longrightarrow>
        fst (should_ignore env event_time w ev) = True
        \<and> ignore_events (snd (should_ignore env event_time w ev)) = ignore_events w)
   \<and> (\<not> is_directory ev
        \<and> map_of (ignore_events w) (abspath env (src_path ev)) = Some ignore_time
        \<and> 0 < ignore_time \<and> ignore_time + 500000000 \<le> event_time \<longrightarrow>
        fst (should_ignore env event_time w ev) = False
        \<and> map_of (ignore_events (snd (should_ignore env event_time w ev)))
            = (map_of (ignore_events w))(abspath env (src_path ev) := None))
   \<and> (\<not> is_directory ev
        \<and> map_of (ignore_events w) (abspath env (src_path ev)) = None \<longrightarrow>
        should_ignore env event_time w ev = (False, w))"
  by (simp add: should_ignore_def Let_def delete_conv')

theorem should_ignore_echo_guard_witness:
  "should_ignore example_env 1700000000000000000 example_world
     \<lparr>is_directory = True, src_path = ''/m/sub'', dest_path = ''''\<rparr> = (True, example_world)
   \<and> fst (should_ignore example_env 1700000000499999999
            (example_world\<lparr>ignore_events := [(''/m/f.txt'', 1700000000000000000)]\<rparr>)
            \<lparr>is_directory = False, src_path = ''/m/f.txt'', dest_path = ''''\<rparr>) = True
   \<and> ignore_events (snd (should_ignore example_env 1700000000499999999
            (example_world\<lparr>ignore_events := [(''/m/f.txt'', 1700000000000000000)]\<rparr>)
            \<lparr>is_directory = False, src_path = ''/m/f.txt'', dest_path = ''''\<rparr>))
       = [(''/m/f.txt'', 1700000000000000000)]
   \<and> fst (should_ignore example_env 1700000000500000000
            (example_world\<lparr>ignore_events := [(''/m/f.txt'', 1700000000000000000)]\<rparr>)
            \<lparr>is_directory = False, src_path = ''/m/f.txt'', dest_path = ''''\<rparr>) = False
   \<and> map_of (ignore_events (snd (should_ignore example_env 1700000000500000000
            (example_world\<lparr>ignore_events := [(''/m/f.txt'', 1700000000000000000)]\<rparr>)
            \<lparr>is_directory = False, src_path = ''/m/f.txt'', dest_path = ''''\<rparr>))) ''/m/f.txt''
       = None"
proof -
  let ?w = "example_world\<lparr>ignore_events := [(''/m/f.txt'', 1700000000000000000)]\<rparr>"
  let ?dir = "\<lparr>is_directory = True, src_path = ''/m/sub'', dest_path = ''''\<rparr>"
  let ?ev = "\<lparr>is_directory = False, src_path = ''/m/f.txt'', dest_path = ''''\<rparr>"
  have look: "map_of (ignore_events ?w) (abspath example_env (src_path ?ev))
              = Some 1700000000000000000"
    by (simp add: example_env_def)
  note D = should_ignore_echo_guard[of ?dir example_env 1700000000000000000 example_world 0,
      THEN conjunct1]
  note K = should_ignore_echo_guard[of ?ev example_env 1700000000499999999 ?w
      1700000000000000000, THEN conjunct2, THEN conjunct1]
  note E = should_ignore_echo_guard[of ?ev example_env 1700000000500000000 ?w
      1700000000000000000, THEN conjunct2, THEN conjunct2, THEN conjunct1]
  have d: "should_ignore example_env 1700000000000000000 example_world ?dir = (True, example_world)"
    using D by simp
  have k: "fst (should_ignore example_env 1700000000499999999 ?w ?ev) = True
           \<and> ignore_events (snd (should_ignore example_env 1700000000499999999 ?w ?ev))
               = [(''/m/f.txt'', 1700000000000000000)]"
    using K look by simp
  have e: "fst (should_ignore example_env 1700000000500000000 ?w ?ev) = False
           \<and> map_of (ignore_events (snd (should_ignore example_env 1700000000500000000 ?w ?ev)))
                ''/m/f.txt'' = None"
    using E look by (simp add: example_env_def)
  show ?thesis using d k e by blast
qed

section \<open>Reconciliation\<close>














section \<open>What an incoming delta requires\<close>






section \<open>A skipped delta and the echo guard\<close>

text \<open>Claim C10. When \<open>handle_delta_transfer\<close> skips an entry because \<open>is_full_file\<close> is
  false, the delta is not empty and no signature is stored for the path, the disk (the
  monitored file and the signature store) is as it was, but the echo-guard table now holds
  the clock reading for the path. A watcher event on that path less than 500 ms later is
  therefore ignored by every handler (\<open>on_created\<close>, \<open>on_modified\<close>, \<open>on_deleted\<close>,
  \<open>on_moved\<close>), although nothing was written.\<close>

theorem skipped_delta_keeps_echo_guard:
  assumes "fi_mtime fi = Some m" and "fi_is_full_file fi \<noteq> Some True"
    and "fi_delta fi = Some sd" and "sd \<noteq> []" and "deserialize_delta_data sd = Inr dd"
    and "load_signature env (disk w) file_path = Inr None"
    and "0 < clock file_path"
    and "\<not> is_directory ev"
    and "abspath env (src_path ev) = abspath env (path_join (monitored_directory env) file_path)"
    and "event_time < clock file_path + 500000000"
  shows "\<exists>w'. handle_delta_transfer env clock w [(file_path, fi)] = (Returned, w')
     \<and> disk w' = disk w \<and> nodes w' = nodes w
     \<and> map_of (ignore_events w') (abspath env (src_path ev)) = Some (clock file_path)
     \<and> should_ignore env event_time w' ev
         = (True, logging INFO ''ignoring event created by ourself'' w')
     \<and> on_created env event_time w' ev
         = (Returned, logging INFO ''ignoring event created by ourself'' w')
     \<and> on_modified env event_time current_time w' ev
         = (Returned, logging INFO ''ignoring event created by ourself'' w')
     \<and> on_deleted env event_time w' ev
         = (Returned, logging INFO ''ignoring event created by ourself'' w')
     \<and> on_moved env event_time w' ev
         = (Returned, logging INFO ''ignoring event created by ourself'' w')"
proof -
  let ?full = "abspath env (path_join (monitored_directory env) file_path)"
  let ?w' = "logging WARNING (''No signature found for '' @ file_path @ '', cannot apply delta.'')
              (w\<lparr>ignore_events := AList.update ?full (clock file_path) (ignore_events w)\<rparr>)"
  have h: "handle_delta_transfer env clock w [(file_path, fi)] = (Returned, ?w')"
    using delta_transfer_entry_skip[OF assms(1-6), of "clock file_path"] by simp
  have look: "map_of (ignore_events ?w') (abspath env (src_path ev)) = Some (clock file_path)"
    by (simp add: assms(9) update_conv')
  have ign: "should_ignore env event_time ?w' ev
             = (True, logging INFO ''ignoring event created by ourself'' ?w')"
    using assms(7,8,10) look by (simp add: should_ignore_def Let_def)
  have "disk ?w' = disk w" "nodes ?w' = nodes w" by simp_all
  moreover have "on_created env event_time ?w' ev
         = (Returned, logging INFO ''ignoring event created by ourself'' ?w')"
    "on_modified env event_time current_time ?w' ev
         = (Returned, logging INFO ''ignoring event created by ourself'' ?w')"
    "on_deleted env event_time ?w' ev
         = (Returned, logging INFO ''ignoring event created by ourself'' ?w')"
    "on_moved env event_time ?w' ev
         = (Returned, logging INFO ''ignoring event created by ourself'' ?w')"
    by (simp_all only: on_created_def on_modified_def on_deleted_def on_moved_def ign
        prod.case bool.case)
  ultimately show ?thesis using h look ign by blast
qed

theorem skipped_delta_keeps_echo_guard_witness:
  "\<exists>w'. handle_delta_transfer example_env (\<lambda>p. 1700000000000000000)
          (example_world\<lparr>disk := [(''/m/a'', \<lparr>content = [1, 2, 3, 4, 5], mtime = 1\<rparr>)]\<rparr>)
          [(''a'', \<lparr>fi_delta = Some [PInt 0], fi_mtime = Some 2, fi_action = Some ''CREATE'',
                   fi_is_full_file = Some False\<rparr>)] = (Returned, w')
     \<and> disk w' = [(''/m/a'', \<lparr>content = [1, 2, 3, 4, 5], mtime = 1\<rparr>)]
     \<and> map_of (ignore_events w') ''/m/a'' = Some 1700000000000000000
     \<and> on_modified example_env 1700000000100000000 1700000000100000001 w'
           \<lparr>is_directory = False, src_path = ''/m/a'', dest_path = ''/m/b''\<rparr>
         = (Returned, logging INFO ''ignoring event created by ourself'' w')"
proof -
  let ?w = "example_world\<lparr>disk := [(''/m/a'', \<lparr>content = [1, 2, 3, 4, 5], mtime = 1\<rparr>)]\<rparr>"
  let ?fi = "\<lparr>fi_delta = Some [PInt 0], fi_mtime = Some 2, fi_action = Some ''CREATE'',
              fi_is_full_file = Some False\<rparr>"
  let ?ev = "\<lparr>is_directory = False, src_path = ''/m/a'', dest_path = ''/m/b''\<rparr>"
  have a1: "fi_mtime ?fi = Some 2" and a2: "fi_is_full_file ?fi \<noteq> Some True"
    and a3: "fi_delta ?fi = Some [PInt 0]" and a4: "[PInt 0] \<noteq> []" by simp_all
  have a5: "deserialize_delta_data [PInt 0] = Inr [PInt 0]"
    by (simp add: deserialize_delta_data_def)
  have a6: "load_signature example_env (disk ?w) ''a'' = Inr None"
    by (simp add: load_signature_def get_signature_file_path_def path_join_def path_exists_def
        example_paths)
  have a7: "0 < (\<lambda>p::path. 1700000000000000000::int) ''a''" by simp
  have a8: "\<not> is_directory ?ev" by simp
  have a9: "abspath example_env (src_path ?ev)
            = abspath example_env (path_join (monitored_directory example_env) ''a'')"
    by (simp add: path_join_def example_paths)
  have a10: "1700000000100000000 < (\<lambda>p::path. 1700000000000000000::int) ''a'' + 500000000"
    by simp
  from skipped_delta_keeps_echo_guard[OF a1 a2 a3 a4 a5 a6 a7 a8 a9 a10,
      of 1700000000100000001]
  show ?thesis by (auto simp: example_paths)
qed

section \<open>Paths with a tilde\<close>

lemma example_encode:
  "\<exists>frame. encode_message example_env ''MODIFICATION_UPDATE'' p = Inr frame"
  by (simp add: encode_message_def pack_Q_def example_fields)

text \<open>Claim C9. Only \<open>on_modified\<close> tests the source path for \<open>~\<close>. On the creation of
  \<open>/m/n~\<close>, with one synchronized peer registered, \<open>on_created\<close> saves a signature for
  \<open>n~\<close> and sends that peer a \<open>MODIFICATION_UPDATE\<close> with action \<open>CREATE\<close>.\<close>

theorem on_created_tilde_not_ignored:
  "CHR ''~'' \<in> set ''/m/n~''
   \<and> \<not> path_exists example_env [(''/m/n~'', \<lparr>content = [1], mtime = 1\<rparr>)] ''/s/n~.sig''
   \<and> (\<exists>w' frame payload'.
         on_created example_env 1700000000000000000
           (example_world
              \<lparr>disk := [(''/m/n~'', \<lparr>content = [1], mtime = 1\<rparr>)],
               nodes := [((''10.0.0.2'', 6000),
                          (Node_init ''10.0.0.2'' 6000 [])\<lparr>is_synchronized := True\<rparr>)]\<rparr>)
           \<lparr>is_directory = False, src_path = ''/m/n~'', dest_path = ''/m/n~''\<rparr>
         = (Returned, w')
       \<and> path_exists example_env (disk w') ''/s/n~.sig''
       \<and> encode_message example_env ''MODIFICATION_UPDATE'' (ModificationUpdate payload')
           = Inr frame
       \<and> up_file_path payload' = ''n~'' \<and> up_action payload' = Some ''CREATE''
       \<and> map_option wire_out (map_of (nodes w') (''10.0.0.2'', 6000)) = Some [frame])"
proof -
  let ?d = "[(''/m/n~'', \<lparr>content = [1], mtime = 1::real\<rparr>)]"
  let ?n = "(Node_init ''10.0.0.2'' 6000 [])\<lparr>is_synchronized := True\<rparr>"
  let ?w = "example_world\<lparr>disk := ?d, nodes := [((''10.0.0.2'', 6000), ?n)]\<rparr>"
  let ?ev = "\<lparr>is_directory = False, src_path = ''/m/n~'', dest_path = ''/m/n~''\<rparr>"
  let ?p = "\<lparr>up_file_path = ''n~'', up_action = Some ''CREATE'', up_mtime = Some 1,
            up_delta = Some [PStr (b64encode [1])], up_dest_path = None,
            up_is_full_file = Some True\<rparr>"
  obtain frame where fr: "encode_message example_env ''MODIFICATION_UPDATE''
                            (ModificationUpdate ?p) = Inr frame"
    using example_encode by blast
  have si: "should_ignore example_env 1700000000000000000 ?w ?ev = (False, ?w)"
    by (simp add: should_ignore_def example_paths example_world_def)
  let ?d1 = "write_file example_env 1700000000000000000 ?d ''/s/n~.sig''
               ([1, 0, 0, 0, 0, 0, 0, 0] @ replicate 16 1)"
  have hmc: "handle_modify_create example_env 1700000000000000000 ?w ''/m/n~'' ''CREATE''
      = (case broadcast_update example_env (?w\<lparr>disk := ?d1\<rparr>) ?p of
           (Returned, w2) \<Rightarrow> (Returned, logging INFO (''File '' @ lower ''CREATE'' @ ''d: '' @ ''n~'') w2)
         | r \<Rightarrow> r)"
    by (simp add: handle_modify_create_def stat_def load_signature_def path_exists_def
        compute_signature_def read_file_def save_signature_def serialize_delta_data_def
        get_signature_file_path_def path_join_def pk1 example_paths example_fields Let_def)
  have bc: "\<exists>w2. broadcast_update example_env (?w\<lparr>disk := ?d1\<rparr>) ?p = (Returned, w2)
      \<and> disk w2 = ?d1
      \<and> map_option wire_out (map_of (nodes w2) (''10.0.0.2'', 6000)) = Some [frame]"
    by (simp add: broadcast_update_def send_message_def fr sendall_def store_node_def
        Node_init_def)
  then obtain w2 where w2: "broadcast_update example_env (?w\<lparr>disk := ?d1\<rparr>) ?p = (Returned, w2)"
    "disk w2 = ?d1"
    "map_option wire_out (map_of (nodes w2) (''10.0.0.2'', 6000)) = Some [frame]"
    by blast
  have oc: "on_created example_env 1700000000000000000 ?w ?ev
            = (Returned, logging INFO (''File '' @ lower ''CREATE'' @ ''d: '' @ ''n~'') w2)"
    by (simp only: on_created_def si event.simps hmc w2(1) prod.case bool.case status.case)
  have ex: "path_exists example_env ?d1 ''/s/n~.sig''"
    by (simp add: path_exists_def map_of_write_file example_paths)
  have nx: "\<not> path_exists example_env ?d ''/s/n~.sig''"
    by (simp add: path_exists_def example_paths)
  let ?w' = "logging INFO (''File '' @ lower ''CREATE'' @ ''d: '' @ ''n~'') w2"
  have "on_created example_env 1700000000000000000 ?w ?ev = (Returned, ?w')
       \<and> path_exists example_env (disk ?w') ''/s/n~.sig''
       \<and> encode_message example_env ''MODIFICATION_UPDATE'' (ModificationUpdate ?p) = Inr frame
       \<and> up_file_path ?p = ''n~'' \<and> up_action ?p = Some ''CREATE''
       \<and> map_option wire_out (map_of (nodes ?w') (''10.0.0.2'', 6000)) = Some [frame]"
    using oc ex fr w2 by simp
  then have "\<exists>w' frame payload'.
         on_created example_env 1700000000000000000 ?w ?ev = (Returned, w')
       \<and> path_exists example_env (disk w') ''/s/n~.sig''
       \<and> encode_message example_env ''MODIFICATION_UPDATE'' (ModificationUpdate payload')
           = Inr frame
       \<and> up_file_path payload' = ''n~'' \<and> up_action payload' = Some ''CREATE''
       \<and> map_option wire_out (map_of (nodes w') (''10.0.0.2'', 6000)) = Some [frame]"
    by blast
  moreover have "CHR ''~'' \<in> set ''/m/n~''" by simp
  ultimately show ?thesis using nx by blast
qed

section \<open>Updates only after the handshake\<close>



lemma sent_update_cong: "wire_out n' = wire_out n \<Longrightarrow> sent_update env n' = sent_update env n"
  by (simp add: sent_update_def)








lemma finish_apply_nodes [simp]:
  "nodes (snd (finish_apply env now w file_path full_path m info)) = nodes w"
  by (simp add: finish_apply_def Let_def split_beta split: sum.split)

lemma write_full_file_nodes [simp]:
  "nodes (snd (write_full_file env now w full_path delta_data)) = nodes w"
  by (simp add: write_full_file_def split: sum.split)

lemma delta_transfer_try_nodes [simp]:
  "nodes (snd (delta_transfer_try env now w file_path full_path m full delta_data)) = nodes w"
  by (simp add: delta_transfer_try_def split_beta split: sum.split option.split)



lemma modification_try_nodes [simp]:
  "nodes (snd (modification_try env now w file_path full_path m action full delta_data))
   = nodes w"
  by (simp add: modification_try_def split_beta split: sum.split option.split)






























end
